theory Spec2Isabelle
  imports Main "HOL-Library.Sublist" "HOL-Library.Char_ord" "HOL-Library.AList"
begin

section \<open>JavaScript values\<close>

text \<open>
  The three components (\<^verbatim>\<open>ConfigValidator.js\<close>, the navigation methods of
  \<^verbatim>\<open>BookGenerator\<close> and \<^verbatim>\<open>TemplateEngine.js\<close>) work on decoded JSON/YAML values.
  A value is modelled as a tree; an object is the list of its own properties.

  Modelling boundary:
  \<^item> a \<open>char\<close> stands for one UTF-16 code unit below 256, so strings are restricted to
    the Latin-1 range, where \<^verbatim>\<open>length\<close>, the character classes and \<^verbatim>\<open>toLowerCase\<close>
    are as written here;
  \<^item> numbers are integers (no \<^verbatim>\<open>NaN\<close>, no fractions), printed in decimal, which is what
    the source prints for an integer below \<open>10\<^sup>2\<^sup>1\<close>;
  \<^item> values are trees: two positions of a value never hold the same object;
  \<^item> properties inherited from a prototype (\<^verbatim>\<open>constructor\<close>, \<^verbatim>\<open>toString\<close>, ...) are not
    modelled: reading a name that is not an own property gives \<open>Undefined\<close>.
\<close>

datatype jsval =
    Undefined
  | Null
  | Bool bool
  | Num int
  | Str string
  | Arr "jsval list"
  | Obj "(string \<times> jsval) list"

text \<open>An exception: \<^verbatim>\<open>throw new Error(message)\<close> of the source, or a \<^verbatim>\<open>TypeError\<close>
  raised by the runtime (a property read on \<^verbatim>\<open>null\<close>, a call of a missing method).\<close>

datatype error = Error string | TypeError

definition andThen :: "error + 'a \<Rightarrow> ('a \<Rightarrow> error + 'b) \<Rightarrow> error + 'b" where
  "andThen r k = (case r of Inl e \<Rightarrow> Inl e | Inr x \<Rightarrow> k x)"

fun truthy :: "jsval \<Rightarrow> bool" where
  "truthy Undefined = False"
| "truthy Null = False"
| "truthy (Bool b) = b"
| "truthy (Num n) = (n \<noteq> 0)"
| "truthy (Str s) = (s \<noteq> [])"
| "truthy (Arr xs) = True"
| "truthy (Obj ps) = True"

fun nullish :: "jsval \<Rightarrow> bool" where
  "nullish Undefined = True"
| "nullish Null = True"
| "nullish v = False"

fun is_string :: "jsval \<Rightarrow> bool" where
  "is_string (Str s) = True"
| "is_string v = False"

fun is_array :: "jsval \<Rightarrow> bool" where
  "is_array (Arr xs) = True"
| "is_array v = False"

text \<open>\<^verbatim>\<open>typeof v === 'object'\<close>\<close>

fun is_object :: "jsval \<Rightarrow> bool" where
  "is_object Null = True"
| "is_object (Arr xs) = True"
| "is_object (Obj ps) = True"
| "is_object v = False"

fun join :: "string \<Rightarrow> string list \<Rightarrow> string" where
  "join sep [] = []"
| "join sep [x] = x"
| "join sep (x # y # ys) = x @ sep @ join sep (y # ys)"

function show_nat :: "nat \<Rightarrow> string" where
  "show_nat n =
     (if n < 10 then [''0123456789'' ! n]
      else show_nat (n div 10) @ [''0123456789'' ! (n mod 10)])"
  by pat_completeness auto
termination
  by (relation "measure id") auto

declare show_nat.simps [simp del]

text \<open>\<^verbatim>\<open>String(v)\<close>, the conversion applied to what a replace callback returns and to
  the parts of a template literal.\<close>

fun toStr :: "jsval \<Rightarrow> string" where
  "toStr Undefined = ''undefined''"
| "toStr Null = ''null''"
| "toStr (Bool b) = (if b then ''true'' else ''false'')"
| "toStr (Num n) = (if n < 0 then ''-'' @ show_nat (nat (- n)) else show_nat (nat n))"
| "toStr (Str s) = s"
| "toStr (Arr xs) =
     join '','' (map (\<lambda>x. case x of Undefined \<Rightarrow> [] | Null \<Rightarrow> [] | _ \<Rightarrow> toStr x) xs)"
| "toStr (Obj ps) = ''[object Object]''"

text \<open>The index named by a property key of an array or string: the key is the decimal
  form of a position below the length.\<close>

definition index_of_key :: "nat \<Rightarrow> string \<Rightarrow> nat option" where
  "index_of_key n k = find (\<lambda>i. show_nat i = k) [0..<n]"

text \<open>The property read \<^verbatim>\<open>v[k]\<close>. On \<^verbatim>\<open>undefined\<close> and \<^verbatim>\<open>null\<close> the source would raise;
  every caller below tests \<open>nullish\<close> first where the source has no guard of its own.\<close>

fun get :: "jsval \<Rightarrow> string \<Rightarrow> jsval" where
  "get (Obj ps) k = (case map_of ps k of Some v \<Rightarrow> v | None \<Rightarrow> Undefined)"
| "get (Arr xs) k =
     (case index_of_key (length xs) k of
        Some i \<Rightarrow> xs ! i
      | None \<Rightarrow> if k = ''length'' then Num (int (length xs)) else Undefined)"
| "get (Str s) k =
     (case index_of_key (length s) k of
        Some i \<Rightarrow> Str [s ! i]
      | None \<Rightarrow> if k = ''length'' then Num (int (length s)) else Undefined)"
| "get v k = Undefined"

text \<open>\<^verbatim>\<open>k in v\<close> for an object or array \<open>v\<close>.\<close>

fun has_property :: "jsval \<Rightarrow> string \<Rightarrow> bool" where
  "has_property (Obj ps) k = (map_of ps k \<noteq> None)"
| "has_property (Arr xs) k = (index_of_key (length xs) k \<noteq> None \<or> k = ''length'')"
| "has_property v k = False"

section \<open>Anchored regular expressions\<close>

text \<open>\<^verbatim>\<open>/^r$/.test(s)\<close> for a pattern \<open>r\<close> without captures or look-around: the test
  succeeds exactly when the whole of \<open>s\<close> is a word of \<open>r\<close>. A character class is a list
  of ranges.\<close>

datatype rexp =
    Nul
  | Eps
  | Cls "(char \<times> char) list"
  | Seq rexp rexp
  | Alt rexp rexp
  | Star rexp

definition in_class :: "(char \<times> char) list \<Rightarrow> char \<Rightarrow> bool" where
  "in_class rs c = list_ex (\<lambda>(lo, hi). lo \<le> c \<and> c \<le> hi) rs"

fun nullable :: "rexp \<Rightarrow> bool" where
  "nullable Nul = False"
| "nullable Eps = True"
| "nullable (Cls rs) = False"
| "nullable (Seq r s) = (nullable r \<and> nullable s)"
| "nullable (Alt r s) = (nullable r \<or> nullable s)"
| "nullable (Star r) = True"

fun deriv :: "char \<Rightarrow> rexp \<Rightarrow> rexp" where
  "deriv c Nul = Nul"
| "deriv c Eps = Nul"
| "deriv c (Cls rs) = (if in_class rs c then Eps else Nul)"
| "deriv c (Seq r s) =
     (if nullable r then Alt (Seq (deriv c r) s) (deriv c s) else Seq (deriv c r) s)"
| "deriv c (Alt r s) = Alt (deriv c r) (deriv c s)"
| "deriv c (Star r) = Seq (deriv c r) (Star r)"

fun matches :: "rexp \<Rightarrow> string \<Rightarrow> bool" where
  "matches r [] = nullable r"
| "matches r (c # cs) = matches (deriv c r) cs"

definition Chr :: "char \<Rightarrow> rexp" where
  "Chr c = Cls [(c, c)]"

definition Plus1 :: "rexp \<Rightarrow> rexp" where
  "Plus1 r = Seq r (Star r)"

definition Opt :: "rexp \<Rightarrow> rexp" where
  "Opt r = Alt r Eps"

section \<open>Configuration validator (src/src/ConfigValidator.js)\<close>

subsection \<open>Message texts\<close>

text \<open>The fixed Japanese parts of the messages, as the UTF-8 bytes of the source
  text; the interpolated parts are model strings.\<close>

definition jp_config_invalid :: string where
  "jp_config_invalid =
   [CHR 0xE8, CHR 0xA8, CHR 0xAD, CHR 0xE5, CHR 0xAE, CHR 0x9A, CHR 0xE3, CHR 0x83, CHR 0x95,
     CHR 0xE3, CHR 0x82, CHR 0xA1, CHR 0xE3, CHR 0x82, CHR 0xA4, CHR 0xE3, CHR 0x83, CHR 0xAB,
     CHR 0xE3, CHR 0x81, CHR 0x8C, CHR 0xE6, CHR 0xAD, CHR 0xA3, CHR 0xE3, CHR 0x81, CHR 0x97,
     CHR 0xE3, CHR 0x81, CHR 0x8F, CHR 0xE3, CHR 0x81, CHR 0x82, CHR 0xE3, CHR 0x82, CHR 0x8A,
     CHR 0xE3, CHR 0x81, CHR 0xBE, CHR 0xE3, CHR 0x81, CHR 0x9B, CHR 0xE3, CHR 0x82, CHR 0x93]"

definition jp_required_missing :: string where
  "jp_required_missing =
   [CHR 0xE5, CHR 0xBF, CHR 0x85, CHR 0xE9, CHR 0xA0, CHR 0x88, CHR 0xE3, CHR 0x83, CHR 0x95,
     CHR 0xE3, CHR 0x82, CHR 0xA3, CHR 0xE3, CHR 0x83, CHR 0xBC, CHR 0xE3, CHR 0x83, CHR 0xAB,
     CHR 0xE3, CHR 0x83, CHR 0x89, CHR 0xE3, CHR 0x81, CHR 0x8C, CHR 0xE4, CHR 0xB8, CHR 0x8D,
     CHR 0xE8, CHR 0xB6, CHR 0xB3, CHR 0xE3, CHR 0x81, CHR 0x97, CHR 0xE3, CHR 0x81, CHR 0xA6,
     CHR 0xE3, CHR 0x81, CHR 0x84, CHR 0xE3, CHR 0x81, CHR 0xBE, CHR 0xE3, CHR 0x81, CHR 0x99,
     CHR 0x3A, CHR 0x20]"

definition jp_must_be_string :: string where
  "jp_must_be_string =
   [CHR 0x20, CHR 0xE3, CHR 0x81, CHR 0xAF, CHR 0xE6, CHR 0x96, CHR 0x87, CHR 0xE5, CHR 0xAD,
     CHR 0x97, CHR 0xE5, CHR 0x88, CHR 0x97, CHR 0xE3, CHR 0x81, CHR 0xA7, CHR 0xE3, CHR 0x81,
     CHR 0x82, CHR 0xE3, CHR 0x82, CHR 0x8B, CHR 0xE5, CHR 0xBF, CHR 0x85, CHR 0xE8, CHR 0xA6,
     CHR 0x81, CHR 0xE3, CHR 0x81, CHR 0x8C, CHR 0xE3, CHR 0x81, CHR 0x82, CHR 0xE3, CHR 0x82,
     CHR 0x8A, CHR 0xE3, CHR 0x81, CHR 0xBE, CHR 0xE3, CHR 0x81, CHR 0x99]"

definition jp_title_too_long :: string where
  "jp_title_too_long =
   [CHR 0xE3, CHR 0x82, CHR 0xBF, CHR 0xE3, CHR 0x82, CHR 0xA4, CHR 0xE3, CHR 0x83, CHR 0x88,
     CHR 0xE3, CHR 0x83, CHR 0xAB, CHR 0xE3, CHR 0x81, CHR 0xAF, CHR 0x31, CHR 0x30, CHR 0x30,
     CHR 0xE6, CHR 0x96, CHR 0x87, CHR 0xE5, CHR 0xAD, CHR 0x97, CHR 0xE4, CHR 0xBB, CHR 0xA5,
     CHR 0xE5, CHR 0x86, CHR 0x85, CHR 0xE3, CHR 0x81, CHR 0xA7, CHR 0xE5, CHR 0x85, CHR 0xA5,
     CHR 0xE5, CHR 0x8A, CHR 0x9B, CHR 0xE3, CHR 0x81, CHR 0x97, CHR 0xE3, CHR 0x81, CHR 0xA6,
     CHR 0xE3, CHR 0x81, CHR 0x8F, CHR 0xE3, CHR 0x81, CHR 0xA0, CHR 0xE3, CHR 0x81, CHR 0x95,
     CHR 0xE3, CHR 0x81, CHR 0x84]"

definition jp_description_too_long :: string where
  "jp_description_too_long =
   [CHR 0xE8, CHR 0xAA, CHR 0xAC, CHR 0xE6, CHR 0x98, CHR 0x8E, CHR 0xE3, CHR 0x81, CHR 0xAF,
     CHR 0x35, CHR 0x30, CHR 0x30, CHR 0xE6, CHR 0x96, CHR 0x87, CHR 0xE5, CHR 0xAD, CHR 0x97,
     CHR 0xE4, CHR 0xBB, CHR 0xA5, CHR 0xE5, CHR 0x86, CHR 0x85, CHR 0xE3, CHR 0x81, CHR 0xA7,
     CHR 0xE5, CHR 0x85, CHR 0xA5, CHR 0xE5, CHR 0x8A, CHR 0x9B, CHR 0xE3, CHR 0x81, CHR 0x97,
     CHR 0xE3, CHR 0x81, CHR 0xA6, CHR 0xE3, CHR 0x81, CHR 0x8F, CHR 0xE3, CHR 0x81, CHR 0xA0,
     CHR 0xE3, CHR 0x81, CHR 0x95, CHR 0xE3, CHR 0x81, CHR 0x84]"

definition jp_version_format :: string where
  "jp_version_format =
   [CHR 0xE3, CHR 0x83, CHR 0x90, CHR 0xE3, CHR 0x83, CHR 0xBC, CHR 0xE3, CHR 0x82, CHR 0xB8,
     CHR 0xE3, CHR 0x83, CHR 0xA7, CHR 0xE3, CHR 0x83, CHR 0xB3, CHR 0xE3, CHR 0x81, CHR 0xAF,
     CHR 0x20, CHR 0x73, CHR 0x65, CHR 0x6D, CHR 0x61, CHR 0x6E, CHR 0x74, CHR 0x69, CHR 0x63,
     CHR 0x20, CHR 0x76, CHR 0x65, CHR 0x72, CHR 0x73, CHR 0x69, CHR 0x6F, CHR 0x6E, CHR 0x69,
     CHR 0x6E, CHR 0x67, CHR 0x20, CHR 0xE5, CHR 0xBD, CHR 0xA2, CHR 0xE5, CHR 0xBC, CHR 0x8F,
     CHR 0xE3, CHR 0x81, CHR 0xA7, CHR 0xE5, CHR 0x85, CHR 0xA5, CHR 0xE5, CHR 0x8A, CHR 0x9B,
     CHR 0xE3, CHR 0x81, CHR 0x97, CHR 0xE3, CHR 0x81, CHR 0xA6, CHR 0xE3, CHR 0x81, CHR 0x8F,
     CHR 0xE3, CHR 0x81, CHR 0xA0, CHR 0xE3, CHR 0x81, CHR 0x95, CHR 0xE3, CHR 0x81, CHR 0x84,
     CHR 0x20, CHR 0x28, CHR 0xE4, CHR 0xBE, CHR 0x8B, CHR 0x3A, CHR 0x20, CHR 0x31, CHR 0x2E,
     CHR 0x30, CHR 0x2E, CHR 0x30, CHR 0x29]"

definition jp_must_be_array :: string where
  "jp_must_be_array =
   [CHR 0x20, CHR 0xE3, CHR 0x81, CHR 0xAF, CHR 0xE9, CHR 0x85, CHR 0x8D, CHR 0xE5, CHR 0x88,
     CHR 0x97, CHR 0xE3, CHR 0x81, CHR 0xA7, CHR 0xE3, CHR 0x81, CHR 0x82, CHR 0xE3, CHR 0x82,
     CHR 0x8B, CHR 0xE5, CHR 0xBF, CHR 0x85, CHR 0xE8, CHR 0xA6, CHR 0x81, CHR 0xE3, CHR 0x81,
     CHR 0x8C, CHR 0xE3, CHR 0x81, CHR 0x82, CHR 0xE3, CHR 0x82, CHR 0x8A, CHR 0xE3, CHR 0x81,
     CHR 0xBE, CHR 0xE3, CHR 0x81, CHR 0x99]"

definition jp_chapter :: string where
  "jp_chapter =
   [CHR 0xE7, CHR 0xAB, CHR 0xA0, CHR 0x20]"

definition jp_appendix :: string where
  "jp_appendix =
   [CHR 0xE4, CHR 0xBB, CHR 0x98, CHR 0xE9, CHR 0x8C, CHR 0xB2, CHR 0x20]"

definition jp_is_required :: string where
  "jp_is_required =
   [CHR 0x20, CHR 0xE3, CHR 0x81, CHR 0x8C, CHR 0xE5, CHR 0xBF, CHR 0x85, CHR 0xE8, CHR 0xA6,
     CHR 0x81, CHR 0xE3, CHR 0x81, CHR 0xA7, CHR 0xE3, CHR 0x81, CHR 0x99]"

definition jp_id_charset :: string where
  "jp_id_charset =
   [CHR 0x20, CHR 0xE3, CHR 0x81, CHR 0xAF, CHR 0xE8, CHR 0x8B, CHR 0xB1, CHR 0xE5, CHR 0xB0,
     CHR 0x8F, CHR 0xE6, CHR 0x96, CHR 0x87, CHR 0xE5, CHR 0xAD, CHR 0x97, CHR 0xE3, CHR 0x80,
     CHR 0x81, CHR 0xE6, CHR 0x95, CHR 0xB0, CHR 0xE5, CHR 0xAD, CHR 0x97, CHR 0xE3, CHR 0x80,
     CHR 0x81, CHR 0xE3, CHR 0x83, CHR 0x8F, CHR 0xE3, CHR 0x82, CHR 0xA4, CHR 0xE3, CHR 0x83,
     CHR 0x95, CHR 0xE3, CHR 0x83, CHR 0xB3, CHR 0xE3, CHR 0x81, CHR 0xAE, CHR 0xE3, CHR 0x81,
     CHR 0xBF, CHR 0xE4, CHR 0xBD, CHR 0xBF, CHR 0xE7, CHR 0x94, CHR 0xA8, CHR 0xE3, CHR 0x81,
     CHR 0xA7, CHR 0xE3, CHR 0x81, CHR 0x8D, CHR 0xE3, CHR 0x81, CHR 0xBE, CHR 0xE3, CHR 0x81,
     CHR 0x99]"

definition jp_must_be_url :: string where
  "jp_must_be_url =
   [CHR 0x20, CHR 0xE3, CHR 0x81, CHR 0xAF, CHR 0xE6, CHR 0x9C, CHR 0x89, CHR 0xE5, CHR 0x8A,
     CHR 0xB9, CHR 0xE3, CHR 0x81, CHR 0xAA, CHR 0x55, CHR 0x52, CHR 0x4C, CHR 0xE5, CHR 0xBD,
     CHR 0xA2, CHR 0xE5, CHR 0xBC, CHR 0x8F, CHR 0xE3, CHR 0x81, CHR 0xA7, CHR 0xE3, CHR 0x81,
     CHR 0x82, CHR 0xE3, CHR 0x82, CHR 0x8B, CHR 0xE5, CHR 0xBF, CHR 0x85, CHR 0xE8, CHR 0xA6,
     CHR 0x81, CHR 0xE3, CHR 0x81, CHR 0x8C, CHR 0xE3, CHR 0x81, CHR 0x82, CHR 0xE3, CHR 0x82,
     CHR 0x8A, CHR 0xE3, CHR 0x81, CHR 0xBE, CHR 0xE3, CHR 0x81, CHR 0x99]"

definition jp_has_duplicates :: string where
  "jp_has_duplicates =
   [CHR 0x20, CHR 0xE3, CHR 0x81, CHR 0xAB, CHR 0xE9, CHR 0x87, CHR 0x8D, CHR 0xE8, CHR 0xA4,
     CHR 0x87, CHR 0xE3, CHR 0x81, CHR 0x97, CHR 0xE3, CHR 0x81, CHR 0x9F, CHR 0xE3, CHR 0x83,
     CHR 0x91, CHR 0xE3, CHR 0x82, CHR 0xB9, CHR 0xE3, CHR 0x81, CHR 0x8C, CHR 0xE5, CHR 0x90,
     CHR 0xAB, CHR 0xE3, CHR 0x81, CHR 0xBE, CHR 0xE3, CHR 0x82, CHR 0x8C, CHR 0xE3, CHR 0x81,
     CHR 0xA6, CHR 0xE3, CHR 0x81, CHR 0x84, CHR 0xE3, CHR 0x81, CHR 0xBE, CHR 0xE3, CHR 0x81,
     CHR 0x99]"

definition jp_has_invalid :: string where
  "jp_has_invalid =
   [CHR 0x20, CHR 0xE3, CHR 0x81, CHR 0xAB, CHR 0xE7, CHR 0x84, CHR 0xA1, CHR 0xE5, CHR 0x8A,
     CHR 0xB9, CHR 0xE3, CHR 0x81, CHR 0xAA, CHR 0xE3, CHR 0x83, CHR 0x91, CHR 0xE3, CHR 0x82,
     CHR 0xB9, CHR 0xE3, CHR 0x81, CHR 0x8C, CHR 0xE5, CHR 0x90, CHR 0xAB, CHR 0xE3, CHR 0x81,
     CHR 0xBE, CHR 0xE3, CHR 0x82, CHR 0x8C, CHR 0xE3, CHR 0x81, CHR 0xA6, CHR 0xE3, CHR 0x81,
     CHR 0x84, CHR 0xE3, CHR 0x81, CHR 0xBE, CHR 0xE3, CHR 0x81, CHR 0x99]"

definition jp_has_invalid_format :: string where
  "jp_has_invalid_format =
   [CHR 0x20, CHR 0xE3, CHR 0x81, CHR 0xAB, CHR 0xE7, CHR 0x84, CHR 0xA1, CHR 0xE5, CHR 0x8A,
     CHR 0xB9, CHR 0xE3, CHR 0x81, CHR 0xAA, CHR 0xE5, CHR 0xBD, CHR 0xA2, CHR 0xE5, CHR 0xBC,
     CHR 0x8F, CHR 0xE3, CHR 0x81, CHR 0xAE, CHR 0xE3, CHR 0x83, CHR 0x91, CHR 0xE3, CHR 0x82,
     CHR 0xB9, CHR 0xE3, CHR 0x81, CHR 0x8C, CHR 0xE5, CHR 0x90, CHR 0xAB, CHR 0xE3, CHR 0x81,
     CHR 0xBE, CHR 0xE3, CHR 0x82, CHR 0x8C, CHR 0xE3, CHR 0x81, CHR 0xA6, CHR 0xE3, CHR 0x81,
     CHR 0x84, CHR 0xE3, CHR 0x81, CHR 0xBE, CHR 0xE3, CHR 0x81, CHR 0x99, CHR 0x3A, CHR 0x20]"



subsection \<open>isValidVersion\<close>

definition digit :: rexp where
  "digit = Cls [(CHR ''0'', CHR ''9'')]"

definition numeric_part :: rexp where
  \<comment> \<open>\<^verbatim>\<open>(0|[1-9]\d*)\<close>\<close>
  "numeric_part = Alt (Chr CHR ''0'') (Seq (Cls [(CHR ''1'', CHR ''9'')]) (Star digit))"

definition ident_char :: rexp where
  \<comment> \<open>\<^verbatim>\<open>[0-9a-zA-Z-]\<close>\<close>
  "ident_char =
     Cls [(CHR ''0'', CHR ''9''), (CHR ''a'', CHR ''z''), (CHR ''A'', CHR ''Z''),
          (CHR ''-'', CHR ''-'')]"

definition prerelease_ident :: rexp where
  \<comment> \<open>\<^verbatim>\<open>(?:0|[1-9]\d*|\d*[a-zA-Z-][0-9a-zA-Z-]*)\<close>\<close>
  "prerelease_ident =
     Alt (Chr CHR ''0'')
       (Alt (Seq (Cls [(CHR ''1'', CHR ''9'')]) (Star digit))
            (Seq (Star digit)
               (Seq (Cls [(CHR ''a'', CHR ''z''), (CHR ''A'', CHR ''Z''), (CHR ''-'', CHR ''-'')])
                    (Star ident_char))))"

definition semverRegex :: rexp where
  "semverRegex =
     Seq numeric_part (Seq (Chr CHR ''.'') (Seq numeric_part (Seq (Chr CHR ''.'')
       (Seq numeric_part
         (Seq (Opt (Seq (Chr CHR ''-'')
                  (Seq prerelease_ident (Star (Seq (Chr CHR ''.'') prerelease_ident)))))
              (Opt (Seq (Chr CHR ''+'')
                  (Seq (Plus1 ident_char) (Star (Seq (Chr CHR ''.'') (Plus1 ident_char)))))))))))"

definition isValidVersion :: "string \<Rightarrow> bool" where
  "isValidVersion version = matches semverRegex version"

subsection \<open>validate\<close>

definition requiredFields :: "string list" where
  "requiredFields = [''title'', ''description'', ''author'']"

definition validateRequiredFields :: "jsval \<Rightarrow> error + unit" where
  "validateRequiredFields config =
     (let missingFields =
            filter (\<lambda>field. \<not> has_property config field \<or> \<not> truthy (get config field))
              requiredFields
      in if length missingFields > 0
         then Inl (Error (jp_required_missing @ join '', '' missingFields))
         else Inr ())"

text \<open>\<^verbatim>\<open>v.length > n\<close>\<close>

definition length_exceeds :: "jsval \<Rightarrow> int \<Rightarrow> bool" where
  "length_exceeds v n = (case get v ''length'' of Num k \<Rightarrow> k > n | _ \<Rightarrow> False)"

definition validateDataTypes :: "jsval \<Rightarrow> error + unit" where
  "validateDataTypes config =
     (case find (\<lambda>field. truthy (get config field) \<and> \<not> is_string (get config field))
             [''title'', ''description'', ''author'', ''version'', ''language''] of
        Some field \<Rightarrow> Inl (Error (field @ jp_must_be_string))
      | None \<Rightarrow>
          if truthy (get config ''title'') \<and> length_exceeds (get config ''title'') 100
          then Inl (Error jp_title_too_long)
          else if truthy (get config ''description'')
                  \<and> length_exceeds (get config ''description'') 500
          then Inl (Error jp_description_too_long)
          else if truthy (get config ''version'')
                  \<and> \<not> isValidVersion (toStr (get config ''version''))
          then Inl (Error jp_version_format)
          else Inr ())"

definition idRegex :: rexp where
  \<comment> \<open>\<^verbatim>\<open>/^[a-z0-9-]+$/\<close>\<close>
  "idRegex = Plus1 (Cls [(CHR ''a'', CHR ''z''), (CHR ''0'', CHR ''9''), (CHR ''-'', CHR ''-'')])"

text \<open>\<^verbatim>\<open>validateChapter\<close> and \<^verbatim>\<open>validateAppendix\<close> differ in the label of their messages
  only; \<open>validateItem\<close> is their common body.\<close>

definition validateItem :: "string \<Rightarrow> jsval \<Rightarrow> nat \<Rightarrow> error + unit" where
  "validateItem label item index =
     (if nullish item then Inl TypeError
      else if \<not> truthy (get item ''id'')
      then Inl (Error (label @ show_nat index @ '': id'' @ jp_is_required))
      else if \<not> truthy (get item ''title'')
      then Inl (Error (label @ show_nat index @ '': title'' @ jp_is_required))
      else if \<not> is_string (get item ''id'')
      then Inl (Error (label @ show_nat index @ '': id'' @ jp_must_be_string))
      else if \<not> is_string (get item ''title'')
      then Inl (Error (label @ show_nat index @ '': title'' @ jp_must_be_string))
      else if \<not> matches idRegex (toStr (get item ''id''))
      then Inl (Error (label @ show_nat index @ '': id'' @ jp_id_charset))
      else Inr ())"

definition validateChapter :: "jsval \<Rightarrow> nat \<Rightarrow> error + unit" where
  "validateChapter chapter index = validateItem jp_chapter chapter index"

definition validateAppendix :: "jsval \<Rightarrow> nat \<Rightarrow> error + unit" where
  "validateAppendix appendix index = validateItem jp_appendix appendix index"

text \<open>The loop \<^verbatim>\<open>for (const [index, item] of items.entries()) check(item, index + 1)\<close>,
  started at position \<open>i\<close>.\<close>

fun validateEach :: "(jsval \<Rightarrow> nat \<Rightarrow> error + unit) \<Rightarrow> nat \<Rightarrow> jsval list \<Rightarrow> error + unit" where
  "validateEach check i [] = Inr ()"
| "validateEach check i (x # xs) =
     (case check x (i + 1) of Inl e \<Rightarrow> Inl e | Inr u \<Rightarrow> validateEach check (i + 1) xs)"

definition validateStructure :: "jsval \<Rightarrow> error + unit" where
  "validateStructure config =
     (let structure = get config ''structure'' in
      if \<not> truthy structure then Inr ()
      else
        andThen
          (case get structure ''chapters'' of
             Arr xs \<Rightarrow> validateEach validateChapter 0 xs
           | v \<Rightarrow> if truthy v then Inl (Error (''chapters'' @ jp_must_be_array)) else Inr ())
          (\<lambda>u. case get structure ''appendices'' of
             Arr xs \<Rightarrow> validateEach validateAppendix 0 xs
           | v \<Rightarrow> if truthy v then Inl (Error (''appendices'' @ jp_must_be_array)) else Inr ()))"

text \<open>Equality of two members of a \<^verbatim>\<open>Set\<close>: primitives by value, objects and arrays by
  identity (two positions of a tree are never the same object).\<close>

fun same_value_zero :: "jsval \<Rightarrow> jsval \<Rightarrow> bool" where
  "same_value_zero (Arr xs) b = False"
| "same_value_zero (Obj ps) b = False"
| "same_value_zero a b = (a = b)"

text \<open>\<^verbatim>\<open>new Set(xs).size\<close>\<close>

fun set_size :: "jsval list \<Rightarrow> nat" where
  "set_size [] = 0"
| "set_size (x # xs) =
     (if list_ex (same_value_zero x) xs then set_size xs else Suc (set_size xs))"

definition navPathRegex :: rexp where
  \<comment> \<open>\<^verbatim>\<open>/^[a-zA-Z0-9\-_/]+$/\<close>\<close>
  "navPathRegex =
     Plus1 (Cls [(CHR ''a'', CHR ''z''), (CHR ''A'', CHR ''Z''), (CHR ''0'', CHR ''9''),
                 (CHR ''-'', CHR ''-''), (CHR ''_'', CHR ''_''), (CHR ''/'', CHR ''/'')])"

definition validateNavigation :: "jsval \<Rightarrow> error + unit" where
  "validateNavigation config =
     (let navigation = get config ''navigation'' in
      if \<not> truthy navigation then Inr ()
      else
        case get navigation ''order'' of
          Arr order \<Rightarrow>
            if set_size order \<noteq> length order
            then Inl (Error (''navigation.order'' @ jp_has_duplicates))
            else if length (filter (\<lambda>path. \<not> truthy path \<or> \<not> is_string path) order) > 0
            then Inl (Error (''navigation.order'' @ jp_has_invalid))
            else
              (let invalidFormat = filter (\<lambda>path. \<not> matches navPathRegex (toStr path)) order
               in if length invalidFormat > 0
                  then Inl (Error (''navigation.order'' @ jp_has_invalid_format
                                     @ join '', '' (map toStr invalidFormat)))
                  else Inr ())
        | v \<Rightarrow> if truthy v then Inl (Error (''navigation.order'' @ jp_must_be_array)) else Inr ())"

text \<open>\<^verbatim>\<open>isValidUrl\<close> asks the platform's \<^verbatim>\<open>URL\<close> constructor, which is not part of the
  repository: the parser is the parameter \<open>parses\<close>.\<close>

definition isValidUrl :: "(string \<Rightarrow> bool) \<Rightarrow> string \<Rightarrow> bool" where
  "isValidUrl parses url = parses url"

definition validateRepository :: "(string \<Rightarrow> bool) \<Rightarrow> jsval \<Rightarrow> error + unit" where
  "validateRepository parses config =
     (let repo = get config ''repository'' in
      if \<not> truthy repo then Inr ()
      else if truthy (get repo ''url'') \<and> \<not> is_string (get repo ''url'')
      then Inl (Error (''repository.url'' @ jp_must_be_string))
      else if truthy (get repo ''url'') \<and> \<not> isValidUrl parses (toStr (get repo ''url''))
      then Inl (Error (''repository.url'' @ jp_must_be_url))
      else if truthy (get repo ''branch'') \<and> \<not> is_string (get repo ''branch'')
      then Inl (Error (''repository.branch'' @ jp_must_be_string))
      else Inr ())"

definition validate :: "(string \<Rightarrow> bool) \<Rightarrow> jsval \<Rightarrow> error + unit" where
  "validate parses config =
     (if \<not> truthy config \<or> \<not> is_object config then Inl (Error jp_config_invalid)
      else
        andThen (validateRequiredFields config) (\<lambda>u.
        andThen (validateDataTypes config) (\<lambda>u.
        andThen (validateStructure config) (\<lambda>u.
        andThen (validateNavigation config) (\<lambda>u.
        validateRepository parses config)))))"

section \<open>Navigation sequence builder (BookGenerator, src/unnamed/part_006)\<close>

record nav_link =
  path :: string
  title :: jsval

record nav_entry =
  previous :: "nav_link option"
  "next" :: "nav_link option"
  index :: nat
  total :: nat

text \<open>\<^verbatim>\<open>p.replace(/^\//, '').replace(/\.html$/, '')\<close>\<close>

definition strip_leading_slash :: "string \<Rightarrow> string" where
  "strip_leading_slash p = (case p of c # cs \<Rightarrow> if c = CHR ''/'' then cs else p | [] \<Rightarrow> [])"

definition strip_html_suffix :: "string \<Rightarrow> string" where
  "strip_html_suffix p =
     (if suffix ''.html'' p then take (length p - length ''.html'') p else p)"

definition cleanPath :: "string \<Rightarrow> string" where
  "cleanPath p = strip_html_suffix (strip_leading_slash p)"

text \<open>The body \<^verbatim>\<open>items.forEach(item => { if (item.path) order.push(clean(item.path)) })\<close>
  shared by the four sections: the keys one section list contributes.\<close>

fun sectionPaths :: "jsval list \<Rightarrow> error + string list" where
  "sectionPaths [] = Inr []"
| "sectionPaths (item # items) =
     (if nullish item then Inl TypeError
      else if truthy (get item ''path'')
      then (case get item ''path'' of
              Str p \<Rightarrow> andThen (sectionPaths items) (\<lambda>rest. Inr (cleanPath p # rest))
            | v \<Rightarrow> Inl TypeError)
      else sectionPaths items)"

text \<open>\<^verbatim>\<open>if (structure.name) structure.name.forEach(...)\<close>: only an array has \<^verbatim>\<open>forEach\<close>.\<close>

definition sectionOrder :: "jsval \<Rightarrow> error + string list" where
  "sectionOrder v =
     (if truthy v then (case v of Arr items \<Rightarrow> sectionPaths items | u \<Rightarrow> Inl TypeError)
      else Inr [])"

text \<open>\<^verbatim>\<open>config.structure || {}\<close>\<close>

definition structureOf :: "jsval \<Rightarrow> jsval" where
  "structureOf config =
     (if truthy (get config ''structure'') then get config ''structure'' else Obj [])"

definition generateDefaultNavigationOrder :: "jsval \<Rightarrow> error + string list" where
  "generateDefaultNavigationOrder config =
     (if nullish config then Inl TypeError
      else
        let structure = structureOf config in
        andThen (sectionOrder (get structure ''introduction'')) (\<lambda>intro.
        andThen (sectionOrder (get structure ''chapters'')) (\<lambda>chapters.
        andThen (sectionOrder (get structure ''conclusion'')) (\<lambda>concl.
        andThen (sectionOrder (get structure ''appendices'')) (\<lambda>appendices.
        Inr (intro @ chapters @ concl @ appendices))))))"

text \<open>\<^verbatim>\<open>...(v || [])\<close>: an array spreads its items, a string its characters, nothing
  else that is truthy can be spread.\<close>

definition spreadSection :: "jsval \<Rightarrow> error + jsval list" where
  "spreadSection v =
     (if truthy v
      then (case v of Arr items \<Rightarrow> Inr items
                    | Str s \<Rightarrow> Inr (map (\<lambda>c. Str [c]) s)
                    | u \<Rightarrow> Inl TypeError)
      else Inr [])"

definition is_word_char :: "char \<Rightarrow> bool" where
  \<comment> \<open>\<^verbatim>\<open>\w\<close>\<close>
  "is_word_char c =
     in_class [(CHR ''a'', CHR ''z''), (CHR ''A'', CHR ''Z''), (CHR ''0'', CHR ''9''),
               (CHR ''_'', CHR ''_'')] c"

definition upper_ascii :: "char \<Rightarrow> char" where
  "upper_ascii c =
     (if CHR ''a'' \<le> c \<and> c \<le> CHR ''z'' then char_of (of_char c - (32::nat)) else c)"

text \<open>\<^verbatim>\<open>s.replace(/\b\w/g, l => l.toUpperCase())\<close>: a word character is replaced when the
  character before it is not a word character; \<open>inWord\<close> tells whether it is.\<close>

fun capitalizeWords :: "bool \<Rightarrow> string \<Rightarrow> string" where
  "capitalizeWords inWord [] = []"
| "capitalizeWords inWord (c # cs) =
     (if is_word_char c \<and> \<not> inWord then upper_ascii c else c)
       # capitalizeWords (is_word_char c) cs"

definition humanize :: "string \<Rightarrow> string" where
  "humanize pagePath =
     capitalizeWords False
       (map (\<lambda>c. if c = CHR ''-'' \<or> c = CHR ''_'' \<or> c = CHR ''/'' then CHR '' '' else c)
          pagePath)"

text \<open>The search loop of \<^verbatim>\<open>getPageTitle\<close>; \<open>None\<close> when no item matches.\<close>

fun findTitle :: "jsval list \<Rightarrow> jsval \<Rightarrow> error + jsval option" where
  "findTitle [] pagePath = Inr None"
| "findTitle (item # items) pagePath =
     (if nullish item then Inl TypeError
      else if truthy (get item ''path'')
      then (case get item ''path'' of
              Str p \<Rightarrow>
                if Str (cleanPath p) = pagePath
                then Inr (Some (if truthy (get item ''title'') then get item ''title''
                                else pagePath))
                else findTitle items pagePath
            | v \<Rightarrow> Inl TypeError)
      else findTitle items pagePath)"

definition getPageTitle :: "jsval \<Rightarrow> jsval \<Rightarrow> error + jsval" where
  "getPageTitle config pagePath =
     (if nullish config then Inl TypeError
      else
        let structure = structureOf config in
        andThen (spreadSection (get structure ''introduction'')) (\<lambda>intro.
        andThen (spreadSection (get structure ''chapters'')) (\<lambda>chapters.
        andThen (spreadSection (get structure ''conclusion'')) (\<lambda>concl.
        andThen (spreadSection (get structure ''appendices'')) (\<lambda>appendices.
        andThen (findTitle (intro @ chapters @ concl @ appendices) pagePath) (\<lambda>found.
          case found of
            Some t \<Rightarrow> Inr t
          | None \<Rightarrow> (case pagePath of Str p \<Rightarrow> Inr (Str (humanize p))
                                     | v \<Rightarrow> Inl TypeError)))))))"

text \<open>The first half of \<^verbatim>\<open>generateNavigationData\<close>: the override when it is truthy,
  the default order otherwise. Only an array has the \<^verbatim>\<open>forEach\<close> called next.\<close>

definition navigationOrder :: "jsval \<Rightarrow> error + jsval list" where
  "navigationOrder config =
     (if nullish config then Inl TypeError
      else
        let navigation = get config ''navigation'';
            override = (if nullish navigation then Undefined else get navigation ''order'')
        in if truthy override
           then (case override of Arr order \<Rightarrow> Inr order | v \<Rightarrow> Inl TypeError)
           else andThen (generateDefaultNavigationOrder config) (\<lambda>order. Inr (map Str order)))"

text \<open>\<^verbatim>\<open>p ? { path: `/${p}.html`, title: this.getPageTitle(config, p) } : null\<close>\<close>

definition linkTo :: "jsval \<Rightarrow> jsval \<Rightarrow> error + nav_link option" where
  "linkTo config p =
     (if truthy p
      then andThen (getPageTitle config p)
             (\<lambda>t. Inr (Some \<lparr>path = ''/'' @ toStr p @ ''.html'', title = t\<rparr>))
      else Inr None)"

text \<open>The entry built by the \<^verbatim>\<open>forEach\<close> callback at position \<open>i\<close>
  (\<open>i < length order\<close>, so \<open>i + 1 < length order\<close> is the source's
  \<^verbatim>\<open>index < navigationOrder.length - 1\<close>).\<close>

definition navEntry :: "jsval \<Rightarrow> jsval list \<Rightarrow> nat \<Rightarrow> error + nav_entry" where
  "navEntry config order i =
     (let prevPath = (if i > 0 then order ! (i - 1) else Null);
          nextPath = (if i + 1 < length order then order ! (i + 1) else Null)
      in andThen (linkTo config prevPath) (\<lambda>p.
         andThen (linkTo config nextPath) (\<lambda>n.
         Inr \<lparr>previous = p, next = n, index = i, total = length order\<rparr>)))"

text \<open>\<^verbatim>\<open>navigationData[key] = entry\<close> on a plain object: the key \<^verbatim>\<open>__proto__\<close> sets the
  prototype and creates no property.\<close>

definition assign :: "(string \<rightharpoonup> nav_entry) \<Rightarrow> string \<Rightarrow> nav_entry \<Rightarrow> (string \<rightharpoonup> nav_entry)" where
  "assign m k e = (if k = ''__proto__'' then m else m(k \<mapsto> e))"

fun assignAll ::
  "jsval \<Rightarrow> jsval list \<Rightarrow> nat list \<Rightarrow> (string \<rightharpoonup> nav_entry) \<Rightarrow> error + (string \<rightharpoonup> nav_entry)"
where
  "assignAll config order [] m = Inr m"
| "assignAll config order (i # rest) m =
     andThen (navEntry config order i)
       (\<lambda>e. assignAll config order rest (assign m (toStr (order ! i)) e))"

text \<open>\<^verbatim>\<open>generateNavigationData\<close> without its file operations: the value of
  \<^verbatim>\<open>navigationData\<close> that is written to \<^verbatim>\<open>navigation.json\<close>.\<close>

definition generateNavigationData :: "jsval \<Rightarrow> error + (string \<rightharpoonup> nav_entry)" where
  "generateNavigationData config =
     andThen (navigationOrder config)
       (\<lambda>order. assignAll config order [0..<length order] Map.empty)"

section \<open>Template engine (src/src/TemplateEngine.js)\<close>

subsection \<open>Global replacement\<close>

text \<open>\<^verbatim>\<open>s.replace(/re/g, callback)\<close>. A matcher tells, for the text from the current
  position on, whether the pattern matches there, and if so the replacement and the
  length of the match. The scan copies one character and moves on where there is no
  match, and resumes after the match where there is one. A match of the patterns below
  is never empty.\<close>

fun gsub :: "(string \<Rightarrow> (string \<times> nat) option) \<Rightarrow> string \<Rightarrow> string" where
  "gsub m [] = []"
| "gsub m (c # cs) =
     (case m (c # cs) of
        Some (replacement, n) \<Rightarrow> replacement @ gsub m (drop (n - 1) cs)
      | None \<Rightarrow> c # gsub m cs)"

text \<open>The position of the first occurrence of \<open>p\<close> in \<open>s\<close>.\<close>

fun find_sub :: "string \<Rightarrow> string \<Rightarrow> nat option" where
  "find_sub p [] = (if p = [] then Some 0 else None)"
| "find_sub p (c # cs) =
     (if prefix p (c # cs) then Some 0 else map_option Suc (find_sub p cs))"

definition is_space :: "char \<Rightarrow> bool" where
  \<comment> \<open>\<^verbatim>\<open>\s\<close>, and the characters \<^verbatim>\<open>trim\<close> removes, below 256\<close>
  "is_space c =
     (c \<in> set [CHR 0x09, CHR 0x0A, CHR 0x0B, CHR 0x0C, CHR 0x0D, CHR 0x20, CHR 0xA0])"

definition trim :: "string \<Rightarrow> string" where
  "trim s = rev (dropWhile is_space (rev (dropWhile is_space s)))"

text \<open>What \<^verbatim>\<open>\s+([^}]+)\<close> captures from \<open>u\<close>, the characters before the first
  \<^verbatim>\<open>}\<close>: the greedy \<^verbatim>\<open>\s+\<close> takes the leading white space and gives one character back
  when nothing else is left.\<close>

definition capture :: "string \<Rightarrow> string" where
  "capture u = (let w = dropWhile is_space u in if w = [] then [last u] else w)"

text \<open>\<^verbatim>\<open>opener\s+([^}]+)\}\}([\s\S]*?)closer\<close> with the callback \<open>f\<close> on the two
  captures.\<close>

definition match_block ::
  "string \<Rightarrow> string \<Rightarrow> (string \<Rightarrow> string \<Rightarrow> string) \<Rightarrow> string \<Rightarrow> (string \<times> nat) option"
where
  "match_block opener closer f s =
     (if prefix opener s then
        let t = drop (length opener) s;
            u = takeWhile (\<lambda>c. c \<noteq> CHR ''}'') t;
            r = drop (length u) t
        in if 2 \<le> length u \<and> is_space (hd u) \<and> prefix ''}}'' r
           then (case find_sub closer (drop 2 r) of
                   Some n \<Rightarrow>
                     Some (f (capture u) (take n (drop 2 r)),
                           length opener + length u + 2 + n + length closer)
                 | None \<Rightarrow> None)
           else None
      else None)"

text \<open>\<^verbatim>\<open>\{\{([^...]+)\}\}\<close> with the excluded characters \<open>excluded\<close> and the callback \<open>f\<close>
  on the capture.\<close>

definition match_token ::
  "string \<Rightarrow> (string \<Rightarrow> string) \<Rightarrow> string \<Rightarrow> (string \<times> nat) option"
where
  "match_token excluded f s =
     (if prefix ''{{'' s then
        let t = drop 2 s;
            u = takeWhile (\<lambda>c. c \<notin> set excluded) t;
            r = drop (length u) t
        in if u \<noteq> [] \<and> prefix ''}}'' r then Some (f u, 2 + length u + 2) else None
      else None)"

text \<open>A pattern without operators, replaced by a fixed text.\<close>

definition match_literal :: "string \<Rightarrow> string \<Rightarrow> string \<Rightarrow> (string \<times> nat) option" where
  "match_literal p replacement s = (if prefix p s then Some (replacement, length p) else None)"

text \<open>\<^verbatim>\<open>\{\{else\}\}([\s\S]*?)(?=\{\{\/)\<close>, replaced by its capture.\<close>

definition match_else :: "string \<Rightarrow> (string \<times> nat) option" where
  "match_else s =
     (if prefix ''{{else}}'' s
      then (case find_sub ''{{/'' (drop 8 s) of
              Some n \<Rightarrow> Some (take n (drop 8 s), 8 + n)
            | None \<Rightarrow> None)
      else None)"

subsection \<open>getValueByPath\<close>

text \<open>\<^verbatim>\<open>s.split(d)\<close>\<close>

fun split_on :: "char \<Rightarrow> string \<Rightarrow> string list" where
  "split_on d [] = [[]]"
| "split_on d (c # cs) =
     (if c = d then [] # split_on d cs
      else (case split_on d cs of w # ws \<Rightarrow> (c # w) # ws | [] \<Rightarrow> [[c]]))"

fun walkKeys :: "jsval \<Rightarrow> string list \<Rightarrow> jsval" where
  "walkKeys current [] = current"
| "walkKeys current (key # keys) =
     (if nullish current then Undefined else walkKeys (get current key) keys)"

definition getValueByPath :: "jsval \<Rightarrow> string \<Rightarrow> jsval" where
  "getValueByPath obj p =
     (if \<not> truthy obj \<or> \<not> is_object obj then Undefined
      else walkKeys obj (split_on CHR ''.'' p))"

subsection \<open>renderTemplate\<close>

text \<open>\<^verbatim>\<open>v || ''\<close>, converted to a string by \<^verbatim>\<open>replace\<close>.\<close>

definition orEmpty :: "jsval \<Rightarrow> string" where
  "orEmpty v = (if truthy v then toStr v else [])"

text \<open>The body of one \<^verbatim>\<open>each\<close> block for the element \<open>item\<close> at position \<open>i\<close>.\<close>

definition renderItem :: "string \<Rightarrow> jsval \<Rightarrow> nat \<Rightarrow> string" where
  "renderItem content item i =
     gsub (match_token ''}@''
             (\<lambda>key. let trimmedKey = trim key
                    in if trimmedKey = ''this'' then toStr item
                       else orEmpty (getValueByPath item trimmedKey)))
       (gsub (match_literal ''{{@index}}'' (show_nat (i + 1))) content)"

definition renderIf :: "jsval \<Rightarrow> string \<Rightarrow> string \<Rightarrow> string" where
  "renderIf data condition content =
     (if truthy (getValueByPath data (trim condition)) then content else [])"

definition renderEach :: "jsval \<Rightarrow> string \<Rightarrow> string \<Rightarrow> string" where
  "renderEach data arrayPath content =
     (case getValueByPath data (trim arrayPath) of
        Arr items \<Rightarrow>
          concat (map (\<lambda>(item, i). renderItem content item i) (zip items [0..<length items]))
      | v \<Rightarrow> [])"

definition renderTemplate :: "string \<Rightarrow> jsval \<Rightarrow> string" where
  "renderTemplate template data =
     (let result1 = gsub (match_block ''{{#if'' ''{{/if}}'' (renderIf data)) template;
          result2 = gsub (match_block ''{{#each'' ''{{/each}}'' (renderEach data)) result1;
          result3 = gsub match_else result2
      in gsub (match_token ''}#/@'' (\<lambda>key. orEmpty (getValueByPath data (trim key)))) result3)"

subsection \<open>preprocessData and render\<close>











section \<open>The semantic-versioning grammar\<close>

text \<open>The words of a pattern, to state what an anchored test accepts.\<close>

inductive_set star :: "string set \<Rightarrow> string set" for A :: "string set" where
  star_empty: "[] \<in> star A"
| star_step: "x \<in> A \<Longrightarrow> y \<in> star A \<Longrightarrow> x @ y \<in> star A"

fun lang :: "rexp \<Rightarrow> string set" where
  "lang Nul = {}"
| "lang Eps = {[]}"
| "lang (Cls rs) = {[c] | c. in_class rs c}"
| "lang (Seq r s) = {x @ y | x y. x \<in> lang r \<and> y \<in> lang s}"
| "lang (Alt r s) = lang r \<union> lang s"
| "lang (Star r) = star (lang r)"

text \<open>The grammar \<^verbatim>\<open>MAJOR.MINOR.PATCH[-prerelease][+build]\<close> in the words of the
  specification: each numeric part is a non-negative integer without leading zero; a
  pre-release is a dot-separated list of identifiers that are such numbers or contain a
  letter or hyphen; build metadata is a dot-separated list of non-empty identifiers.\<close>

definition is_digit :: "char \<Rightarrow> bool" where
  "is_digit c = (CHR ''0'' \<le> c \<and> c \<le> CHR ''9'')"

definition numeric_identifier :: "string \<Rightarrow> bool" where
  "numeric_identifier s =
     (s = ''0'' \<or> (\<exists>c ds. s = c # ds \<and> CHR ''1'' \<le> c \<and> c \<le> CHR ''9'' \<and> (\<forall>d \<in> set ds. is_digit d)))"

definition identifier_char :: "char \<Rightarrow> bool" where
  "identifier_char c =
     (is_digit c \<or> (CHR ''a'' \<le> c \<and> c \<le> CHR ''z'') \<or> (CHR ''A'' \<le> c \<and> c \<le> CHR ''Z'')
      \<or> c = CHR ''-'')"

definition prerelease_identifier :: "string \<Rightarrow> bool" where
  "prerelease_identifier s =
     (numeric_identifier s
      \<or> (s \<noteq> [] \<and> (\<forall>c \<in> set s. identifier_char c) \<and> (\<exists>c \<in> set s. \<not> is_digit c)))"

definition build_identifier :: "string \<Rightarrow> bool" where
  "build_identifier s = (s \<noteq> [] \<and> (\<forall>c \<in> set s. identifier_char c))"

definition semver_grammar :: "string \<Rightarrow> bool" where
  "semver_grammar v =
     (\<exists>major minor patch pre build.
        v = major @ ''.'' @ minor @ ''.'' @ patch @ pre @ build
        \<and> numeric_identifier major \<and> numeric_identifier minor \<and> numeric_identifier patch
        \<and> (pre = [] \<or> (\<exists>ids. ids \<noteq> [] \<and> (\<forall>i \<in> set ids. prerelease_identifier i)
                            \<and> pre = ''-'' @ join ''.'' ids))
        \<and> (build = [] \<or> (\<exists>ids. ids \<noteq> [] \<and> (\<forall>i \<in> set ids. build_identifier i)
                              \<and> build = ''+'' @ join ''.'' ids)))"

section \<open>The navigation chain\<close>

text \<open>The section lists the title search can read: every item is an object (not
  \<^verbatim>\<open>null\<close>) whose path, when it is truthy, is a string; every section is absent (falsy) or
  an array of such items.\<close>

definition item_ok :: "jsval \<Rightarrow> bool" where
  "item_ok item = (\<not> nullish item \<and> (truthy (get item ''path'') \<longrightarrow> is_string (get item ''path'')))"

definition section_ok :: "jsval \<Rightarrow> bool" where
  "section_ok v = (\<not> truthy v \<or> (case v of Arr items \<Rightarrow> list_all item_ok items | u \<Rightarrow> False))"

definition sections_ok :: "jsval \<Rightarrow> bool" where
  "sections_ok config =
     (\<not> nullish config
      \<and> list_all (\<lambda>name. section_ok (get (structureOf config) name))
           [''introduction'', ''chapters'', ''conclusion'', ''appendices''])"

text \<open>The default order in the words of the specification: the section lists in the
  order introduction, chapters, conclusion, appendices; of each item its path without
  the leading slash and the trailing \<^verbatim>\<open>.html\<close>; an item without a path contributes
  nothing.\<close>

definition items_of :: "jsval \<Rightarrow> jsval list" where
  "items_of v = (case v of Arr items \<Rightarrow> items | u \<Rightarrow> [])"

definition keys_of :: "jsval list \<Rightarrow> string list" where
  "keys_of items =
     map cleanPath
       (concat (map (\<lambda>item. case get item ''path'' of
                              Str p \<Rightarrow> if p = [] then [] else [p]
                            | v \<Rightarrow> [])
                  items))"

definition default_keys :: "jsval \<Rightarrow> string list" where
  "default_keys config =
     concat (map (\<lambda>name. keys_of (items_of (get (structureOf config) name)))
               [''introduction'', ''chapters'', ''conclusion'', ''appendices''])"

text \<open>Following the \<^verbatim>\<open>next\<close> links from the entry of \<open>k\<close>: the keys visited until an entry
  has no next link. \<open>None\<close> when a link leads to no entry or the fuel runs out
  first.\<close>

fun walk :: "nat \<Rightarrow> (string \<rightharpoonup> nav_entry) \<Rightarrow> string \<Rightarrow> string list option" where
  "walk 0 m k = None"
| "walk (Suc n) m k =
     (case m k of
        None \<Rightarrow> None
      | Some e \<Rightarrow>
          (case next e of
             None \<Rightarrow> Some [k]
           | Some l \<Rightarrow> map_option (\<lambda>ks. k # ks) (walk n m (cleanPath (path l)))))"

text \<open>The entry the builder is to give position \<open>i\<close> of the keys \<open>ks\<close>, with the titles
  \<open>T\<close>.\<close>

definition link_of :: "(string \<Rightarrow> jsval) \<Rightarrow> string \<Rightarrow> nav_link" where
  "link_of T k = \<lparr>path = ''/'' @ k @ ''.html'', title = T k\<rparr>"

definition entry_of :: "(string \<Rightarrow> jsval) \<Rightarrow> string list \<Rightarrow> nat \<Rightarrow> nav_entry" where
  "entry_of T ks i =
     \<lparr>previous = (if 0 < i then Some (link_of T (ks ! (i - 1))) else None),
      next = (if i + 1 < length ks then Some (link_of T (ks ! (i + 1))) else None),
      index = i, total = length ks\<rparr>"

section \<open>Templates as lists of pieces\<close>












section \<open>Example inputs\<close>

text \<open>A URL parser that accepts every string, for the examples that never reach it.\<close>

definition accept_all :: "string \<Rightarrow> bool" where
  "accept_all url = True"

definition two_chapters :: jsval where
  "two_chapters =
     Obj [(''title'', Str ''T''), (''description'', Str ''D''), (''author'', Str ''A''),
          (''structure'', Obj [(''chapters'', Arr [
             Obj [(''id'', Str ''a''), (''title'', Str ''A''), (''path'', Str ''/a.html'')],
             Obj [(''id'', Str ''b''), (''title'', Str ''B''), (''path'', Str ''/b.html'')]])])]"

definition duplicate_paths :: jsval where
  "duplicate_paths =
     Obj [(''title'', Str ''T''), (''description'', Str ''D''), (''author'', Str ''A''),
          (''structure'', Obj [(''chapters'', Arr [
             Obj [(''id'', Str ''a''), (''title'', Str ''A''), (''path'', Str ''/a.html'')],
             Obj [(''id'', Str ''b''), (''title'', Str ''B''), (''path'', Str ''/a.html'')]])])]"


definition else_template :: string where
  "else_template = ''{{#if x}}A{{else}}B{{/if}}''"











section \<open>Conditions on the input of render\<close>


section \<open>Properties of the validator\<close>

lemma sublist_join: "f \<in> set fs \<Longrightarrow> sublist f (join sep fs)"
proof (induction sep fs rule: join.induct)
  case (1 sep)
  then show ?case by simp
next
  case (2 sep x)
  then show ?case by simp
next
  case (3 sep x y ys)
  show ?case
  proof (cases "f = x")
    case True
    then show ?thesis by (simp add: sublist_append_rightI)
  next
    case False
    with 3 have "sublist f (join sep (y # ys))" by simp
    then have "sublist f ((x @ sep) @ join sep (y # ys))" by (simp add: sublist_append)
    then show ?thesis by simp
  qed
qed

lemma get_absent:
  "is_object config \<Longrightarrow> \<not> has_property config k \<Longrightarrow> \<not> truthy (get config k)"
  by (cases config) (auto split: option.splits)

text \<open>
  \<^bold>\<open>C2.\<close> For every configuration object in which two or more of \<^verbatim>\<open>title\<close>,
  \<^verbatim>\<open>description\<close>, \<^verbatim>\<open>author\<close> are missing or falsy, \<open>validate\<close> raises one error, and
  the message of that error contains the name of every missing field.
\<close>

theorem validate_lists_every_missing_field:
  assumes obj: "truthy config" "is_object config"
    and two: "2 \<le> length (filter (\<lambda>f. \<not> truthy (get config f)) requiredFields)"
  shows "\<exists>msg. validate parses config = Inl (Error msg)
           \<and> (\<forall>f \<in> set requiredFields. \<not> truthy (get config f) \<longrightarrow> sublist f msg)"
proof -
  let ?missing = "filter (\<lambda>field. \<not> has_property config field \<or> \<not> truthy (get config field))
                    requiredFields"
  have same: "?missing = filter (\<lambda>f. \<not> truthy (get config f)) requiredFields"
    using get_absent [OF obj(2)] by (intro filter_cong) auto
  from two have "0 < length (filter (\<lambda>f. \<not> truthy (get config f)) requiredFields)"
    by linarith
  then have nonempty: "length ?missing > 0" by (simp only: same)
  let ?msg = "jp_required_missing @ join '', '' ?missing"
  have raised: "validate parses config = Inl (Error ?msg)"
    using obj nonempty by (simp add: validate_def validateRequiredFields_def andThen_def Let_def)
  have "sublist f ?msg" if "f \<in> set requiredFields" "\<not> truthy (get config f)" for f
  proof -
    from that have "f \<in> set ?missing" by simp
    then have "sublist f (join '', '' ?missing)" by (rule sublist_join)
    then show ?thesis by (simp add: sublist_append)
  qed
  with raised show ?thesis by blast
qed

theorem validate_lists_every_missing_field_witness:
  "\<exists>msg. validate accept_all (Obj [(''description'', Str ''D'')]) = Inl (Error msg)
      \<and> sublist ''title'' msg \<and> sublist ''author'' msg"
proof -
  let ?c = "Obj [(''description'', Str ''D'')]"
  have "truthy ?c" "is_object ?c"
    by simp_all
  moreover have "2 \<le> length (filter (\<lambda>f. \<not> truthy (get ?c f)) requiredFields)"
    by (simp add: requiredFields_def)
  ultimately obtain msg where "validate accept_all ?c = Inl (Error msg)"
    and "\<forall>f \<in> set requiredFields. \<not> truthy (get ?c f) \<longrightarrow> sublist f msg"
    using validate_lists_every_missing_field by blast
  then show ?thesis by (auto simp: requiredFields_def)
qed

subsection \<open>The version pattern\<close>

lemma nullable_lang: "nullable r \<longleftrightarrow> [] \<in> lang r"
  by (induction r) (auto intro: star_empty)

lemma star_Cons:
  "c # s \<in> star A \<longleftrightarrow> (\<exists>x y. s = x @ y \<and> c # x \<in> A \<and> y \<in> star A)"
proof
  assume "c # s \<in> star A"
  then show "\<exists>x y. s = x @ y \<and> c # x \<in> A \<and> y \<in> star A"
  proof (induction "c # s" rule: star.induct)
    case (star_step x y)
    show ?case
    proof (cases x)
      case Nil
      with star_step show ?thesis by simp
    next
      case (Cons d x')
      with star_step show ?thesis by auto
    qed
  qed
next
  assume "\<exists>x y. s = x @ y \<and> c # x \<in> A \<and> y \<in> star A"
  then obtain x y where "s = x @ y" "c # x \<in> A" "y \<in> star A" by blast
  then have "(c # x) @ y \<in> star A" by (intro star_step)
  with \<open>s = x @ y\<close> show "c # s \<in> star A" by simp
qed

lemma lang_deriv: "lang (deriv c r) = {s. c # s \<in> lang r}"
proof (induction r)
  case (Seq r1 r2)
  then show ?case
    by (auto simp: nullable_lang Cons_eq_append_conv) 
next
  case (Star r)
  then show ?case by (auto simp: star_Cons)
qed auto

lemma matches_lang: "matches r s \<longleftrightarrow> s \<in> lang r"
  by (induction s arbitrary: r) (simp_all add: nullable_lang lang_deriv)

lemma star_class: "star {[c] | c. P c} = {s. \<forall>c \<in> set s. P c}"
proof (intro set_eqI iffI)
  fix s assume "s \<in> star {[c] | c. P c}"
  then show "s \<in> {s. \<forall>c \<in> set s. P c}"
    by (induction rule: star.induct) auto
next
  fix s assume "s \<in> {s. \<forall>c \<in> set s. P c}"
  then show "s \<in> star {[c] | c. P c}"
  proof (induction s)
    case Nil
    show ?case by (rule star_empty)
  next
    case (Cons c s)
    then have "[c] \<in> {[c] | c. P c}" and "s \<in> star {[c] | c. P c}" by auto
    then have "[c] @ s \<in> star {[c] | c. P c}" by (rule star_step)
    then show ?case by simp
  qed
qed

lemma lang_Chr: "lang (Chr c) = {[c]}"
  by (auto simp: Chr_def in_class_def)

lemma lang_digit_star: "star (lang digit) = {s. \<forall>c \<in> set s. is_digit c}"
  using star_class [of is_digit] by (simp add: digit_def in_class_def is_digit_def)

lemma in_ident_class:
  "in_class [(CHR ''0'', CHR ''9''), (CHR ''a'', CHR ''z''), (CHR ''A'', CHR ''Z''),
          (CHR ''-'', CHR ''-'')] c = identifier_char c"
  by (auto simp: in_class_def identifier_char_def is_digit_def)

lemma lang_ident_star: "star (lang ident_char) = {s. \<forall>c \<in> set s. identifier_char c}"
  using star_class [of identifier_char] by (simp add: ident_char_def in_ident_class)

lemma single_then:
  "(\<exists>x y. s = x @ y \<and> (\<exists>c. x = [c] \<and> P c) \<and> Q y) \<longleftrightarrow> (\<exists>c ds. s = c # ds \<and> P c \<and> Q ds)"
proof
  assume "\<exists>x y. s = x @ y \<and> (\<exists>c. x = [c] \<and> P c) \<and> Q y"
  then obtain c y where "s = [c] @ y" "P c" "Q y" by blast
  then have "s = c # y \<and> P c \<and> Q y" by simp
  then show "\<exists>c ds. s = c # ds \<and> P c \<and> Q ds" by blast
next
  assume "\<exists>c ds. s = c # ds \<and> P c \<and> Q ds"
  then obtain c ds where "s = c # ds" "P c" "Q ds" by blast
  then have "s = [c] @ ds \<and> (\<exists>d. [c] = [d] \<and> P d) \<and> Q ds" by simp
  then show "\<exists>x y. s = x @ y \<and> (\<exists>c. x = [c] \<and> P c) \<and> Q y" by blast
qed

lemma mem_Seq: "s \<in> lang (Seq r1 r2) \<longleftrightarrow> (\<exists>x y. s = x @ y \<and> x \<in> lang r1 \<and> y \<in> lang r2)"
  by auto

lemma mem_Cls: "x \<in> lang (Cls rs) \<longleftrightarrow> (\<exists>c. x = [c] \<and> in_class rs c)"
  by auto

lemma mem_Cls_then:
  "s \<in> lang (Seq (Cls rs) r) \<longleftrightarrow> (\<exists>c ds. s = c # ds \<and> in_class rs c \<and> ds \<in> lang r)"
  unfolding mem_Seq mem_Cls by (rule single_then)

lemma mem_Chr_then: "s \<in> lang (Seq (Chr c) r) \<longleftrightarrow> (\<exists>ds. s = c # ds \<and> ds \<in> lang r)"
  unfolding Chr_def mem_Cls_then by (auto simp: in_class_def)

lemma mem_digits: "s \<in> lang (Star digit) \<longleftrightarrow> (\<forall>c \<in> set s. is_digit c)"
  by (simp add: lang_digit_star)

lemma mem_idents: "s \<in> lang (Star ident_char) \<longleftrightarrow> (\<forall>c \<in> set s. identifier_char c)"
  by (simp add: lang_ident_star)

lemma in_nonzero_class: "in_class [(CHR ''1'', CHR ''9'')] c \<longleftrightarrow> CHR ''1'' \<le> c \<and> c \<le> CHR ''9''"
  by (simp add: in_class_def)

lemma mem_numeric_part: "s \<in> lang numeric_part \<longleftrightarrow> numeric_identifier s"
proof -
  have "s \<in> lang numeric_part \<longleftrightarrow>
          s \<in> lang (Chr CHR ''0'') \<or> s \<in> lang (Seq (Cls [(CHR ''1'', CHR ''9'')]) (Star digit))"
    by (simp add: numeric_part_def)
  also have "\<dots> \<longleftrightarrow> numeric_identifier s"
    unfolding mem_Cls_then mem_digits in_nonzero_class numeric_identifier_def lang_Chr
    by simp
  finally show ?thesis .
qed

lemma mem_build_ident: "s \<in> lang (Plus1 ident_char) \<longleftrightarrow> build_identifier s"
proof -
  have "s \<in> lang (Plus1 ident_char)
          \<longleftrightarrow> (\<exists>c ds. s = c # ds \<and> identifier_char c \<and> (\<forall>d \<in> set ds. identifier_char d))"
    unfolding Plus1_def ident_char_def [symmetric]
    by (simp only: ident_char_def mem_Cls_then in_ident_class)
       (simp only: ident_char_def [symmetric] mem_idents)
  also have "\<dots> \<longleftrightarrow> build_identifier s"
    by (cases s) (auto simp: build_identifier_def)
  finally show ?thesis .
qed

lemma alnum_form:
  "(\<exists>ds c rest. s = ds @ c # rest \<and> (\<forall>d \<in> set ds. is_digit d)
       \<and> identifier_char c \<and> \<not> is_digit c \<and> (\<forall>d \<in> set rest. identifier_char d))
   \<longleftrightarrow> (s \<noteq> [] \<and> (\<forall>c \<in> set s. identifier_char c) \<and> (\<exists>c \<in> set s. \<not> is_digit c))"
proof
  assume "\<exists>ds c rest. s = ds @ c # rest \<and> (\<forall>d \<in> set ds. is_digit d)
       \<and> identifier_char c \<and> \<not> is_digit c \<and> (\<forall>d \<in> set rest. identifier_char d)"
  then obtain ds c rest where s: "s = ds @ c # rest" and ds: "\<forall>d \<in> set ds. is_digit d"
    and c: "identifier_char c" "\<not> is_digit c" and rest: "\<forall>d \<in> set rest. identifier_char d"
    by blast
  from ds have "\<forall>d \<in> set ds. identifier_char d" by (simp add: identifier_char_def)
  with s c rest show "s \<noteq> [] \<and> (\<forall>c \<in> set s. identifier_char c) \<and> (\<exists>c \<in> set s. \<not> is_digit c)"
    by auto
next
  assume r: "s \<noteq> [] \<and> (\<forall>c \<in> set s. identifier_char c) \<and> (\<exists>c \<in> set s. \<not> is_digit c)"
  let ?ds = "takeWhile is_digit s" and ?tl = "dropWhile is_digit s"
  from r have "?tl \<noteq> []" by auto
  then obtain c rest where tl: "?tl = c # rest" by (cases ?tl) auto
  then have nd: "\<not> is_digit c" using hd_dropWhile [of is_digit s] by auto
  have s: "s = ?ds @ c # rest" using tl takeWhile_dropWhile_id [of is_digit s] by simp
  have ds: "\<forall>d \<in> set ?ds. is_digit d" by (auto dest: set_takeWhileD)
  have "set (c # rest) \<subseteq> set s" using set_dropWhileD [of _ is_digit s] tl by auto
  with r have "identifier_char c" and "\<forall>d \<in> set rest. identifier_char d" by auto
  with s nd ds show "\<exists>ds c rest. s = ds @ c # rest \<and> (\<forall>d \<in> set ds. is_digit d)
       \<and> identifier_char c \<and> \<not> is_digit c \<and> (\<forall>d \<in> set rest. identifier_char d)"
    by blast
qed

lemma in_letter_class:
  "in_class [(CHR ''a'', CHR ''z''), (CHR ''A'', CHR ''Z''), (CHR ''-'', CHR ''-'')] c
     = (identifier_char c \<and> \<not> is_digit c)"
proof -
  have lower: "\<not> is_digit c" if "CHR ''a'' \<le> c" using that
    by (simp add: is_digit_def less_eq_char_def)
  have upper: "\<not> is_digit c" if "CHR ''A'' \<le> c" using that
    by (simp add: is_digit_def less_eq_char_def)
  have hyphen: "\<not> is_digit CHR ''-''"
    by (simp add: is_digit_def)
  show ?thesis
    using lower upper hyphen by (auto simp: in_class_def identifier_char_def)
qed

lemma mem_alnum:
  "s \<in> lang (Seq (Star digit)
               (Seq (Cls [(CHR ''a'', CHR ''z''), (CHR ''A'', CHR ''Z''), (CHR ''-'', CHR ''-'')])
                    (Star ident_char)))
   \<longleftrightarrow> (s \<noteq> [] \<and> (\<forall>c \<in> set s. identifier_char c) \<and> (\<exists>c \<in> set s. \<not> is_digit c))"
proof -
  have "s \<in> lang (Seq (Star digit)
               (Seq (Cls [(CHR ''a'', CHR ''z''), (CHR ''A'', CHR ''Z''), (CHR ''-'', CHR ''-'')])
                    (Star ident_char)))
    \<longleftrightarrow> (\<exists>ds y. s = ds @ y \<and> (\<forall>d \<in> set ds. is_digit d)
           \<and> (\<exists>c rest. y = c # rest \<and> (identifier_char c \<and> \<not> is_digit c)
                  \<and> (\<forall>d \<in> set rest. identifier_char d)))"
    by (simp only: mem_Seq [of s] mem_Cls_then mem_digits mem_idents in_letter_class)
  also have "\<dots> \<longleftrightarrow> (\<exists>ds c rest. s = ds @ c # rest \<and> (\<forall>d \<in> set ds. is_digit d)
       \<and> identifier_char c \<and> \<not> is_digit c \<and> (\<forall>d \<in> set rest. identifier_char d))"
    by blast
  finally show ?thesis by (simp only: alnum_form)
qed

lemma mem_prerelease_ident: "s \<in> lang prerelease_ident \<longleftrightarrow> prerelease_identifier s"
proof -
  have "s \<in> lang prerelease_ident \<longleftrightarrow>
          (s \<in> lang (Chr CHR ''0'') \<or> s \<in> lang (Seq (Cls [(CHR ''1'', CHR ''9'')]) (Star digit)))
          \<or> s \<in> lang (Seq (Star digit)
               (Seq (Cls [(CHR ''a'', CHR ''z''), (CHR ''A'', CHR ''Z''), (CHR ''-'', CHR ''-'')])
                    (Star ident_char)))"
    unfolding prerelease_ident_def by (simp only: lang.simps Un_iff) blast
  also have "(s \<in> lang (Chr CHR ''0'') \<or> s \<in> lang (Seq (Cls [(CHR ''1'', CHR ''9'')]) (Star digit)))
               \<longleftrightarrow> s \<in> lang numeric_part"
    by (simp add: numeric_part_def)
  finally show ?thesis
    by (simp only: mem_alnum mem_numeric_part prerelease_identifier_def)
qed

lemma mem_Opt: "s \<in> lang (Opt r) \<longleftrightarrow> s = [] \<or> s \<in> lang r"
  by (auto simp: Opt_def)

lemma join_dots: "join ''.'' (i # ids) = i @ concat (map (\<lambda>j. CHR ''.'' # j) ids)"
  by (induction ids arbitrary: i) simp_all

lemma star_dotted:
  "y \<in> star {CHR ''.'' # x | x. x \<in> A}
     \<longleftrightarrow> (\<exists>ids. (\<forall>i \<in> set ids. i \<in> A) \<and> y = concat (map (\<lambda>j. CHR ''.'' # j) ids))"
proof
  assume "y \<in> star {CHR ''.'' # x | x. x \<in> A}"
  then show "\<exists>ids. (\<forall>i \<in> set ids. i \<in> A) \<and> y = concat (map (\<lambda>j. CHR ''.'' # j) ids)"
  proof (induction rule: star.induct)
    case star_empty
    have "(\<forall>i \<in> set []. i \<in> A) \<and> [] = concat (map (\<lambda>j. CHR ''.'' # j) [])" by simp
    then show ?case by blast
  next
    case (star_step x y)
    then obtain i ids where "x = CHR ''.'' # i" "i \<in> A" "\<forall>i \<in> set ids. i \<in> A"
      "y = concat (map (\<lambda>j. CHR ''.'' # j) ids)" by blast
    then have "(\<forall>j \<in> set (i # ids). j \<in> A)
                 \<and> x @ y = concat (map (\<lambda>j. CHR ''.'' # j) (i # ids))" by simp
    then show ?case by blast
  qed
next
  assume "\<exists>ids. (\<forall>i \<in> set ids. i \<in> A) \<and> y = concat (map (\<lambda>j. CHR ''.'' # j) ids)"
  then obtain ids where "\<forall>i \<in> set ids. i \<in> A" "y = concat (map (\<lambda>j. CHR ''.'' # j) ids)"
    by blast
  then show "y \<in> star {CHR ''.'' # x | x. x \<in> A}"
  proof (induction ids arbitrary: y)
    case Nil
    then show ?case by (simp add: star_empty)
  next
    case (Cons i ids)
    let ?rest = "concat (map (\<lambda>j. CHR ''.'' # j) ids)"
    from Cons have "?rest \<in> star {CHR ''.'' # x | x. x \<in> A}" by simp
    moreover from Cons have "CHR ''.'' # i \<in> {CHR ''.'' # x | x. x \<in> A}" by simp
    ultimately have "(CHR ''.'' # i) @ ?rest \<in> star {CHR ''.'' # x | x. x \<in> A}"
      by (intro star_step)
    with Cons show ?case by simp
  qed
qed

lemma lang_dot_then: "lang (Seq (Chr CHR ''.'') r) = {CHR ''.'' # x | x. x \<in> lang r}"
  using mem_Chr_then [of _ "CHR ''.''" r] by blast

lemma mem_dotted:
  "s \<in> lang (Seq r (Star (Seq (Chr CHR ''.'') r)))
     \<longleftrightarrow> (\<exists>ids. ids \<noteq> [] \<and> (\<forall>i \<in> set ids. i \<in> lang r) \<and> s = join ''.'' ids)"
proof
  assume "s \<in> lang (Seq r (Star (Seq (Chr CHR ''.'') r)))"
  then obtain x y where s: "s = x @ y" and x: "x \<in> lang r"
    and "y \<in> star {CHR ''.'' # x | x. x \<in> lang r}"
    unfolding mem_Seq [of s] lang.simps(6) lang_dot_then by blast
  then obtain ids where "\<forall>i \<in> set ids. i \<in> lang r" "y = concat (map (\<lambda>j. CHR ''.'' # j) ids)"
    unfolding star_dotted by blast
  with s x have "x # ids \<noteq> [] \<and> (\<forall>i \<in> set (x # ids). i \<in> lang r) \<and> s = join ''.'' (x # ids)"
    by (simp add: join_dots)
  then show "\<exists>ids. ids \<noteq> [] \<and> (\<forall>i \<in> set ids. i \<in> lang r) \<and> s = join ''.'' ids" by blast
next
  assume "\<exists>ids. ids \<noteq> [] \<and> (\<forall>i \<in> set ids. i \<in> lang r) \<and> s = join ''.'' ids"
  then obtain i ids where all: "\<forall>j \<in> set (i # ids). j \<in> lang r" and s: "s = join ''.'' (i # ids)"
    by (metis list.exhaust)
  let ?y = "concat (map (\<lambda>j. CHR ''.'' # j) ids)"
  from all have "?y \<in> star {CHR ''.'' # x | x. x \<in> lang r}"
    unfolding star_dotted by auto
  then have "?y \<in> lang (Star (Seq (Chr CHR ''.'') r))"
    by (simp only: lang.simps(6) lang_dot_then)
  moreover from all have "i \<in> lang r" by simp
  moreover from s have "s = i @ ?y" by (simp only: join_dots)
  ultimately show "s \<in> lang (Seq r (Star (Seq (Chr CHR ''.'') r)))"
    unfolding mem_Seq [of s] by blast
qed

lemma mem_prerelease:
  "s \<in> lang (Opt (Seq (Chr CHR ''-'')
                  (Seq prerelease_ident (Star (Seq (Chr CHR ''.'') prerelease_ident)))))
   \<longleftrightarrow> (s = [] \<or> (\<exists>ids. ids \<noteq> [] \<and> (\<forall>i \<in> set ids. prerelease_identifier i)
                            \<and> s = ''-'' @ join ''.'' ids))"
  unfolding mem_Opt mem_Chr_then mem_dotted mem_prerelease_ident by auto

lemma mem_build:
  "s \<in> lang (Opt (Seq (Chr CHR ''+'')
                  (Seq (Plus1 ident_char) (Star (Seq (Chr CHR ''.'') (Plus1 ident_char))))))
   \<longleftrightarrow> (s = [] \<or> (\<exists>ids. ids \<noteq> [] \<and> (\<forall>i \<in> set ids. build_identifier i)
                              \<and> s = ''+'' @ join ''.'' ids))"
  unfolding mem_Opt mem_Chr_then mem_dotted mem_build_ident by auto

lemma mem_semverRegex: "v \<in> lang semverRegex \<longleftrightarrow> semver_grammar v"
proof -
  let ?pre = "Opt (Seq (Chr CHR ''-'')
                  (Seq prerelease_ident (Star (Seq (Chr CHR ''.'') prerelease_ident))))"
  let ?build = "Opt (Seq (Chr CHR ''+'')
                  (Seq (Plus1 ident_char) (Star (Seq (Chr CHR ''.'') (Plus1 ident_char)))))"
  let ?t5 = "Seq ?pre ?build"
  let ?t4 = "Seq numeric_part ?t5"
  let ?t3 = "Seq (Chr CHR ''.'') ?t4"
  let ?t2 = "Seq numeric_part ?t3"
  let ?t1 = "Seq (Chr CHR ''.'') ?t2"
  have regex: "semverRegex = Seq numeric_part ?t1"
    by (simp add: semverRegex_def)
  show ?thesis
  proof
    assume "v \<in> lang semverRegex"
    then obtain major r1 where v: "v = major @ r1" and major: "major \<in> lang numeric_part"
      and "r1 \<in> lang ?t1"
      unfolding regex mem_Seq [of v] by blast
    then obtain r2 where r1: "r1 = CHR ''.'' # r2" and "r2 \<in> lang ?t2"
      unfolding mem_Chr_then [of r1] by blast
    then obtain minor r3 where r2: "r2 = minor @ r3" and minor: "minor \<in> lang numeric_part"
      and "r3 \<in> lang ?t3"
      unfolding mem_Seq [of r2] by blast
    then obtain r4 where r3: "r3 = CHR ''.'' # r4" and "r4 \<in> lang ?t4"
      unfolding mem_Chr_then [of r3] by blast
    then obtain patch r5 where r4: "r4 = patch @ r5" and patch: "patch \<in> lang numeric_part"
      and "r5 \<in> lang ?t5"
      unfolding mem_Seq [of r4] by blast
    then obtain pre build where r5: "r5 = pre @ build"
      and pre: "pre \<in> lang ?pre" and build: "build \<in> lang ?build"
      unfolding mem_Seq [of r5] by blast
    have "v = major @ ''.'' @ minor @ ''.'' @ patch @ pre @ build"
      by (simp add: v r1 r2 r3 r4 r5)
    with major minor patch pre [unfolded mem_prerelease] build [unfolded mem_build]
    show "semver_grammar v"
      unfolding semver_grammar_def mem_numeric_part by blast
  next
    assume "semver_grammar v"
    then obtain major minor patch pre build
      where v: "v = major @ ''.'' @ minor @ ''.'' @ patch @ pre @ build"
        and major: "major \<in> lang numeric_part" and minor: "minor \<in> lang numeric_part"
        and patch: "patch \<in> lang numeric_part"
        and pre: "pre \<in> lang ?pre" and build: "build \<in> lang ?build"
      unfolding semver_grammar_def mem_numeric_part mem_prerelease mem_build by blast
    from pre build have "pre @ build \<in> lang ?t5"
      unfolding mem_Seq [of "pre @ build"] by blast
    with patch have "patch @ pre @ build \<in> lang ?t4"
      unfolding mem_Seq [of "patch @ pre @ build"] by blast
    then have "CHR ''.'' # patch @ pre @ build \<in> lang ?t3"
      unfolding mem_Chr_then by blast
    with minor have "minor @ CHR ''.'' # patch @ pre @ build \<in> lang ?t2"
      unfolding mem_Seq [of "minor @ CHR ''.'' # patch @ pre @ build"] by blast
    then have "CHR ''.'' # minor @ CHR ''.'' # patch @ pre @ build \<in> lang ?t1"
      unfolding mem_Chr_then by blast
    with major
    have "major @ CHR ''.'' # minor @ CHR ''.'' # patch @ pre @ build \<in> lang (Seq numeric_part ?t1)"
      unfolding mem_Seq [of "major @ CHR ''.'' # minor @ CHR ''.'' # patch @ pre @ build"]
      by blast
    then show "v \<in> lang semverRegex"
      by (simp add: v regex del: lang.simps)
  qed
qed

text \<open>
  \<^bold>\<open>C7.\<close> \<open>isValidVersion\<close> accepts exactly the strings of the semantic-versioning
  grammar; it accepts \<^verbatim>\<open>1.0.0\<close>, \<^verbatim>\<open>1.0.0-alpha\<close> and \<^verbatim>\<open>1.0.0+build.1\<close> and rejects \<^verbatim>\<open>1.0\<close>
  and \<^verbatim>\<open>v1.0.0\<close>.
\<close>

theorem isValidVersion_grammar:
  "(isValidVersion v \<longleftrightarrow> semver_grammar v)
   \<and> isValidVersion ''1.0.0'' \<and> \<not> isValidVersion ''1.0'' \<and> \<not> isValidVersion ''v1.0.0''
   \<and> isValidVersion ''1.0.0-alpha'' \<and> isValidVersion ''1.0.0+build.1''"
proof (intro conjI)
  show "isValidVersion v \<longleftrightarrow> semver_grammar v"
    by (simp only: isValidVersion_def matches_lang mem_semverRegex)
  show "isValidVersion ''1.0.0''" by code_simp
  show "\<not> isValidVersion ''1.0''" by code_simp
  show "\<not> isValidVersion ''v1.0.0''" by code_simp
  show "isValidVersion ''1.0.0-alpha''" by code_simp
  show "isValidVersion ''1.0.0+build.1''" by code_simp
qed

theorem isValidVersion_grammar_witness:
  "semver_grammar ''1.0.0-alpha'' \<and> \<not> semver_grammar ''1.0''"
  using isValidVersion_grammar [of "''1.0.0-alpha''"] isValidVersion_grammar [of "''1.0''"]
  by blast

subsection \<open>The order of the checks\<close>




section \<open>Properties of the navigation builder\<close>

lemma sectionPaths_keys: "list_all item_ok items \<Longrightarrow> sectionPaths items = Inr (keys_of items)"
proof (induction items)
  case Nil
  show ?case by (simp add: keys_of_def)
next
  case (Cons item items)
  then have item: "item_ok item" and rest: "sectionPaths items = Inr (keys_of items)"
    by simp_all
  have split: "keys_of (item # items) = keys_of [item] @ keys_of items"
    by (simp add: keys_of_def)
  show ?case
  proof (cases "get item ''path''")
    case (Str p)
    with item rest show ?thesis
      unfolding split by (simp add: item_ok_def keys_of_def andThen_def del: get.simps)
  qed (use item rest in \<open>auto simp: split item_ok_def keys_of_def simp del: get.simps\<close>)
qed

lemma sectionOrder_keys: "section_ok v \<Longrightarrow> sectionOrder v = Inr (keys_of (items_of v))"
  by (cases v) (auto simp: section_ok_def sectionOrder_def items_of_def keys_of_def
                  sectionPaths_keys)

lemma default_order_keys:
  assumes "sections_ok config"
  shows "generateDefaultNavigationOrder config = Inr (default_keys config)"
proof -
  let ?s = "structureOf config"
  from assms have nn: "\<not> nullish config"
    and a: "section_ok (get ?s ''introduction'')" and b: "section_ok (get ?s ''chapters'')"
    and c: "section_ok (get ?s ''conclusion'')" and d: "section_ok (get ?s ''appendices'')"
    by (simp_all add: sections_ok_def)
  show ?thesis
    unfolding generateDefaultNavigationOrder_def Let_def
    by (simp only: nn if_False sectionOrder_keys [OF a] sectionOrder_keys [OF b]
          sectionOrder_keys [OF c] sectionOrder_keys [OF d] andThen_def sum.case)
       (simp add: default_keys_def)
qed

text \<open>
  \<^bold>\<open>C3.\<close> The default navigation order is the concatenation of the section lists in
  the order introduction, chapters, conclusion, appendices, each path without its
  leading slash and trailing \<^verbatim>\<open>.html\<close>, items without a path contributing nothing. The
  configuration with the two chapters \<^verbatim>\<open>a\<close> (\<^verbatim>\<open>/a.html\<close>) and \<^verbatim>\<open>b\<close> (\<^verbatim>\<open>/b.html\<close>) passes
  \<open>validate\<close>; its default navigation order is \<^verbatim>\<open>["a", "b"]\<close>; the entry of \<^verbatim>\<open>a\<close> has no
  previous page, next page \<^verbatim>\<open>/b.html\<close> titled \<^verbatim>\<open>B\<close>, index 0 of 2; the entry of \<^verbatim>\<open>b\<close> has
  previous page \<^verbatim>\<open>/a.html\<close> titled \<^verbatim>\<open>A\<close>, no next page, index 1 of 2.
\<close>

theorem two_chapters_end_to_end:
  "(sections_ok config \<longrightarrow> generateDefaultNavigationOrder config = Inr (default_keys config))
   \<and> validate parses two_chapters = Inr ()
   \<and> generateDefaultNavigationOrder two_chapters = Inr [''a'', ''b'']
   \<and> (case generateNavigationData two_chapters of
        Inl e \<Rightarrow> False
      | Inr m \<Rightarrow>
          m ''a'' = Some \<lparr>previous = None,
                          next = Some \<lparr>path = ''/b.html'', title = Str ''B''\<rparr>,
                          index = 0, total = 2\<rparr>
          \<and> m ''b'' = Some \<lparr>previous = Some \<lparr>path = ''/a.html'', title = Str ''A''\<rparr>,
                            next = None, index = 1, total = 2\<rparr>)"
proof (intro conjI)
  show "sections_ok config \<longrightarrow> generateDefaultNavigationOrder config = Inr (default_keys config)"
    by (simp add: default_order_keys)
  show "validate parses two_chapters = Inr ()" by code_simp
  show "generateDefaultNavigationOrder two_chapters = Inr [''a'', ''b'']" by code_simp
  show "case generateNavigationData two_chapters of
        Inl e \<Rightarrow> False
      | Inr m \<Rightarrow>
          m ''a'' = Some \<lparr>previous = None,
                          next = Some \<lparr>path = ''/b.html'', title = Str ''B''\<rparr>,
                          index = 0, total = 2\<rparr>
          \<and> m ''b'' = Some \<lparr>previous = Some \<lparr>path = ''/a.html'', title = Str ''A''\<rparr>,
                            next = None, index = 1, total = 2\<rparr>" by code_simp
qed

theorem two_chapters_end_to_end_witness:
  "validate accept_all two_chapters = Inr ()
   \<and> generateDefaultNavigationOrder two_chapters = Inr (default_keys two_chapters)
   \<and> default_keys two_chapters = [''a'', ''b'']"
proof -
  have ok: "sections_ok two_chapters" by code_simp
  have keys: "default_keys two_chapters = [''a'', ''b'']" by code_simp
  from two_chapters_end_to_end [of two_chapters accept_all] ok keys
  show ?thesis by (simp only: simp_thms)
qed

subsection \<open>The chain of entries\<close>

lemma cleanPath_link: "cleanPath (''/'' @ k @ ''.html'') = k"
  by (simp add: cleanPath_def strip_leading_slash_def strip_html_suffix_def suffix_def)

lemma findTitle_ok: "list_all item_ok items \<Longrightarrow> \<exists>r. findTitle items p = Inr r"
proof (induction items)
  case Nil
  show ?case by simp
next
  case (Cons item items)
  then have item: "item_ok item" and rest: "\<exists>r. findTitle items p = Inr r" by simp_all
  show ?case
  proof (cases "truthy (get item ''path'')")
    case True
    with item obtain s where "get item ''path'' = Str s"
      by (cases "get item ''path''") (auto simp: item_ok_def)
    with item True rest show ?thesis by (auto simp: item_ok_def simp del: get.simps)
  next
    case False
    with item rest show ?thesis by (auto simp: item_ok_def simp del: get.simps)
  qed
qed

lemma spreadSection_ok:
  "section_ok v \<Longrightarrow> \<exists>items. spreadSection v = Inr items \<and> list_all item_ok items"
  by (cases v) (auto simp: section_ok_def spreadSection_def)

lemma getPageTitle_ok:
  assumes "sections_ok config"
  shows "\<exists>t. getPageTitle config (Str k) = Inr t"
proof -
  let ?s = "structureOf config"
  from assms have nn: "\<not> nullish config"
    and "section_ok (get ?s ''introduction'')" and "section_ok (get ?s ''chapters'')"
    and "section_ok (get ?s ''conclusion'')" and "section_ok (get ?s ''appendices'')"
    by (simp_all add: sections_ok_def)
  then obtain a b c d
    where a: "spreadSection (get ?s ''introduction'') = Inr a" "list_all item_ok a"
      and b: "spreadSection (get ?s ''chapters'') = Inr b" "list_all item_ok b"
      and c: "spreadSection (get ?s ''conclusion'') = Inr c" "list_all item_ok c"
      and d: "spreadSection (get ?s ''appendices'') = Inr d" "list_all item_ok d"
    using spreadSection_ok by metis
  from a(2) b(2) c(2) d(2) have "list_all item_ok (a @ b @ c @ d)" by simp
  then obtain r where r: "findTitle (a @ b @ c @ d) (Str k) = Inr r"
    using findTitle_ok by blast
  show ?thesis
    unfolding getPageTitle_def Let_def
    by (simp only: nn if_False a(1) b(1) c(1) d(1) r andThen_def sum.case)
       (cases r; simp)
qed

lemma linkTo_key:
  assumes "getPageTitle config (Str k) = Inr (T k)" and "k \<noteq> []"
  shows "linkTo config (Str k) = Inr (Some (link_of T k))"
  using assms by (simp add: linkTo_def andThen_def link_of_def)

lemma linkTo_Null: "linkTo config Null = Inr None"
  by (simp add: linkTo_def)

lemma navEntry_key:
  assumes titles: "\<And>k. k \<in> set ks \<Longrightarrow> getPageTitle config (Str k) = Inr (T k)"
    and nonempty: "[] \<notin> set ks" and i: "i < length ks"
  shows "navEntry config (map Str ks) i = Inr (entry_of T ks i)"
proof -
  have link: "linkTo config (Str (ks ! j)) = Inr (Some (link_of T (ks ! j)))"
    if "j < length ks" for j
  proof (rule linkTo_key)
    from that have "ks ! j \<in> set ks" by simp
    then show "getPageTitle config (Str (ks ! j)) = Inr (T (ks ! j))" by (rule titles)
    from \<open>ks ! j \<in> set ks\<close> nonempty show "ks ! j \<noteq> []" by auto
  qed
  have prev: "linkTo config (if 0 < i then map Str ks ! (i - 1) else Null)
                = Inr (if 0 < i then Some (link_of T (ks ! (i - 1))) else None)"
    using i link [of "i - 1"] by (simp add: linkTo_Null)
  have nxt: "linkTo config (if i + 1 < length ks then map Str ks ! (i + 1) else Null)
                = Inr (if i + 1 < length ks then Some (link_of T (ks ! (i + 1))) else None)"
    using link [of "i + 1"] by (simp add: linkTo_Null)
  show ?thesis
    unfolding navEntry_def Let_def
    by (simp only: length_map prev nxt andThen_def sum.case entry_of_def)
qed

lemma assignAll_keys:
  assumes titles: "\<And>k. k \<in> set ks \<Longrightarrow> getPageTitle config (Str k) = Inr (T k)"
    and nonempty: "[] \<notin> set ks" and proto: "''__proto__'' \<notin> set ks"
    and dist: "distinct ks"
  shows "set js \<subseteq> {0..<length ks} \<Longrightarrow> distinct js \<Longrightarrow>
         \<exists>m. assignAll config (map Str ks) js m0 = Inr m
            \<and> (\<forall>j \<in> set js. m (ks ! j) = Some (entry_of T ks j))
            \<and> (\<forall>k. k \<notin> (\<lambda>j. ks ! j) ` set js \<longrightarrow> m k = m0 k)"
proof (induction js arbitrary: m0)
  case Nil
  show ?case by simp
next
  case (Cons i js)
  then have i: "i < length ks" and inotin: "i \<notin> set js" by auto
  let ?m1 = "m0(ks ! i \<mapsto> entry_of T ks i)"
  from i proto have "ks ! i \<noteq> ''__proto__''" by (metis nth_mem)
  then have step: "assign m0 (toStr (map Str ks ! i)) (entry_of T ks i) = ?m1"
    using i by (simp add: assign_def)
  from Cons.prems have "set js \<subseteq> {0..<length ks}" "distinct js" by auto
  from Cons.IH [OF this, of ?m1] obtain m
    where m: "assignAll config (map Str ks) js ?m1 = Inr m"
      and inside: "\<forall>j \<in> set js. m (ks ! j) = Some (entry_of T ks j)"
      and outside: "\<forall>k. k \<notin> (\<lambda>j. ks ! j) ` set js \<longrightarrow> m k = ?m1 k"
    by blast
  have fresh: "ks ! i \<notin> (\<lambda>j. ks ! j) ` set js"
  proof
    assume "ks ! i \<in> (\<lambda>j. ks ! j) ` set js"
    then obtain j where j: "j \<in> set js" "ks ! i = ks ! j" by blast
    with Cons.prems(1) have "j < length ks" by auto
    with i j(2) dist have "i = j" by (simp add: nth_eq_iff_index_eq)
    with j(1) inotin show False by simp
  qed
  have "assignAll config (map Str ks) (i # js) m0 = Inr m"
    using navEntry_key [OF titles nonempty i] step m by (simp add: andThen_def)
  moreover have "\<forall>j \<in> set (i # js). m (ks ! j) = Some (entry_of T ks j)"
    using inside outside fresh by simp
  moreover have "\<forall>k. k \<notin> (\<lambda>j. ks ! j) ` set (i # js) \<longrightarrow> m k = m0 k"
    using outside by auto
  ultimately show ?case by blast
qed

lemma walk_keys:
  assumes entries: "\<And>j. j < length ks \<Longrightarrow> m (ks ! j) = Some (entry_of T ks j)"
  shows "i < length ks \<Longrightarrow> length ks - i \<le> fuel \<Longrightarrow> walk fuel m (ks ! i) = Some (drop i ks)"
proof (induction fuel arbitrary: i)
  case 0
  then show ?case by simp
next
  case (Suc fuel)
  show ?case
  proof (cases "i + 1 < length ks")
    case True
    with Suc.prems have "walk fuel m (ks ! (i + 1)) = Some (drop (i + 1) ks)"
      by (intro Suc.IH) simp_all
    then have "walk (Suc fuel) m (ks ! i) = Some (ks ! i # drop (Suc i) ks)"
      using True Suc.prems(1) entries [of i]
      by (simp add: entry_of_def link_of_def cleanPath_link del: append.simps)
    with Suc.prems(1) show ?thesis by (simp add: Cons_nth_drop_Suc)
  next
    case False
    with Suc.prems(1) have last: "drop i ks = [ks ! i]"
      by (metis Cons_nth_drop_Suc Suc_eq_plus1 Suc_lessI drop_all le_refl)
    from False Suc.prems(1) entries [of i]
    have "walk (Suc fuel) m (ks ! i) = Some [ks ! i]"
      by (simp add: entry_of_def)
    with last show ?thesis by simp
  qed
qed

text \<open>
  \<^bold>\<open>C1\<close> (as stated). The claim has every built sequence of length \<open>N > 1\<close> give a map
  of \<open>N\<close> entries with one head. Two chapters with the same path \<^verbatim>\<open>/a.html\<close> give the
  sequence \<^verbatim>\<open>["a", "a"]\<close> of length 2; the second assignment overwrites the first, so the
  map has the one entry \<^verbatim>\<open>a\<close>, with index 1 and a previous link, and no entry has
  \<^verbatim>\<open>previous = null\<close>.
\<close>

theorem navigation_chain_counterexample:
  "navigationOrder duplicate_paths = Inr [Str ''a'', Str ''a'']
   \<and> generateNavigationData duplicate_paths
       = Inr [''a'' \<mapsto> \<lparr>previous = Some \<lparr>path = ''/a.html'', title = Str ''A''\<rparr>,
                          next = None, index = 1, total = 2\<rparr>]
   \<and> \<not> (\<exists>k e. [''a'' \<mapsto> \<lparr>previous = Some \<lparr>path = ''/a.html'', title = Str ''A''\<rparr>,
                             next = None, index = 1, total = 2\<rparr>] k = Some e
               \<and> previous e = None)"
proof (intro conjI)
  show order: "navigationOrder duplicate_paths = Inr [Str ''a'', Str ''a'']"
    by code_simp
  have first: "navEntry duplicate_paths [Str ''a'', Str ''a''] 0
      = Inr \<lparr>previous = None, next = Some \<lparr>path = ''/a.html'', title = Str ''A''\<rparr>,
             index = 0, total = 2\<rparr>"
    by code_simp
  have second: "navEntry duplicate_paths [Str ''a'', Str ''a''] 1
      = Inr \<lparr>previous = Some \<lparr>path = ''/a.html'', title = Str ''A''\<rparr>, next = None,
             index = 1, total = 2\<rparr>"
    by code_simp
  have positions: "[0..<length [Str ''a'', Str ''a'']] = [0, 1]"
    by code_simp
  show "generateNavigationData duplicate_paths
       = Inr [''a'' \<mapsto> \<lparr>previous = Some \<lparr>path = ''/a.html'', title = Str ''A''\<rparr>,
                          next = None, index = 1, total = 2\<rparr>]"
    unfolding generateNavigationData_def order andThen_def sum.case positions
    using first second by (simp add: andThen_def assign_def)
  show "\<not> (\<exists>k e. [''a'' \<mapsto> \<lparr>previous = Some \<lparr>path = ''/a.html'', title = Str ''A''\<rparr>,
                             next = None, index = 1, total = 2\<rparr>] k = Some e
               \<and> previous e = None)"
    by (auto split: if_splits)
qed

text \<open>
  \<^bold>\<open>C1\<close> (amended). Let the built sequence be \<open>N \<ge> 1\<close> keys that are distinct non-empty
  strings other than \<^verbatim>\<open>__proto__\<close>, in a configuration whose section lists can be read.
  Then the builder returns a map with exactly these \<open>N\<close> keys; the entry of the key at
  position \<open>i\<close> has index \<open>i\<close> and total \<open>N\<close>, has no previous link exactly when \<open>i = 0\<close> and
  no next link exactly when \<open>i = N - 1\<close>; the only entry without a previous link is the
  head, the only entry without a next link is the tail; and following the next links
  from the head visits the \<open>N\<close> keys in order, each once, and then reaches \<^verbatim>\<open>null\<close>.
\<close>

theorem navigation_chain:
  assumes order: "navigationOrder config = Inr (map Str ks)"
    and sections: "sections_ok config"
    and keys: "distinct ks" "[] \<notin> set ks" "''__proto__'' \<notin> set ks" "ks \<noteq> []"
  shows "\<exists>m. generateNavigationData config = Inr m
           \<and> dom m = set ks \<and> card (dom m) = length ks
           \<and> (\<forall>i < length ks. \<exists>e. m (ks ! i) = Some e \<and> index e = i \<and> total e = length ks
                 \<and> (previous e = None \<longleftrightarrow> i = 0) \<and> (next e = None \<longleftrightarrow> i + 1 = length ks))
           \<and> {k. \<exists>e. m k = Some e \<and> previous e = None} = {hd ks}
           \<and> {k. \<exists>e. m k = Some e \<and> next e = None} = {last ks}
           \<and> (\<forall>fuel \<ge> length ks. walk fuel m (hd ks) = Some ks)"
proof -
  define T where "T k = projr (getPageTitle config (Str k))" for k
  have titles: "getPageTitle config (Str k) = Inr (T k)" for k
  proof -
    from getPageTitle_ok [OF sections] obtain t where "getPageTitle config (Str k) = Inr t"
      by blast
    then show ?thesis by (simp add: T_def)
  qed
  have range: "set [0..<length ks] \<subseteq> {0..<length ks}" by simp
  have dist: "distinct [0..<length ks]" by simp
  from assignAll_keys [of ks config T "[0..<length ks]" Map.empty,
      OF titles keys(2) keys(3) keys(1) range dist]
  obtain m where m: "assignAll config (map Str ks) [0..<length ks] Map.empty = Inr m"
    and inside: "\<forall>j \<in> set [0..<length ks]. m (ks ! j) = Some (entry_of T ks j)"
    and outside: "\<forall>k. k \<notin> (\<lambda>j. ks ! j) ` set [0..<length ks] \<longrightarrow> m k = Map.empty k"
    by blast
  have entries: "m (ks ! j) = Some (entry_of T ks j)" if "j < length ks" for j
    using inside that by simp
  have image: "(\<lambda>j. ks ! j) ` set [0..<length ks] = set ks"
    by (simp add: nth_image)
  have absent: "m k = None" if "k \<notin> set ks" for k
    using outside that unfolding image by simp
  have built: "generateNavigationData config = Inr m"
    by (simp add: generateNavigationData_def order andThen_def m)
  have dom: "dom m = set ks"
  proof (intro set_eqI iffI)
    fix k assume "k \<in> dom m"
    then show "k \<in> set ks" using absent by (cases "k \<in> set ks") auto
  next
    fix k assume "k \<in> set ks"
    then obtain j where "j < length ks" "k = ks ! j" by (auto simp: in_set_conv_nth)
    then show "k \<in> dom m" using entries by auto
  qed
  have card: "card (dom m) = length ks"
    unfolding dom using keys(1) by (rule distinct_card)
  have each: "\<forall>i < length ks. \<exists>e. m (ks ! i) = Some e \<and> index e = i \<and> total e = length ks
                 \<and> (previous e = None \<longleftrightarrow> i = 0) \<and> (next e = None \<longleftrightarrow> i + 1 = length ks)"
  proof (intro allI impI)
    fix i assume i: "i < length ks"
    show "\<exists>e. m (ks ! i) = Some e \<and> index e = i \<and> total e = length ks
                 \<and> (previous e = None \<longleftrightarrow> i = 0) \<and> (next e = None \<longleftrightarrow> i + 1 = length ks)"
    proof (intro exI conjI)
      show "m (ks ! i) = Some (entry_of T ks i)" by (rule entries [OF i])
      show "index (entry_of T ks i) = i" by (simp add: entry_of_def)
      show "total (entry_of T ks i) = length ks" by (simp add: entry_of_def)
      show "previous (entry_of T ks i) = None \<longleftrightarrow> i = 0" by (simp add: entry_of_def)
      show "next (entry_of T ks i) = None \<longleftrightarrow> i + 1 = length ks"
        using i by (auto simp: entry_of_def)
    qed
  qed
  have pos: "0 < length ks" using keys(4) by simp
  have entry_at: "\<exists>j < length ks. k = ks ! j \<and> e = entry_of T ks j" if "m k = Some e" for k e
  proof -
    from that have "k \<in> set ks" using absent by (cases "k \<in> set ks") auto
    then obtain j where j: "j < length ks" "k = ks ! j" by (auto simp: in_set_conv_nth)
    with that entries [of j] show ?thesis by auto
  qed
  have heads: "{k. \<exists>e. m k = Some e \<and> previous e = None} = {hd ks}"
  proof (intro set_eqI iffI)
    fix k assume "k \<in> {k. \<exists>e. m k = Some e \<and> previous e = None}"
    then obtain e where "m k = Some e" "previous e = None" by blast
    with entry_at obtain j where j: "j < length ks" "k = ks ! j"
      and "previous (entry_of T ks j) = None" by blast
    then have "j = 0" by (auto simp: entry_of_def split: if_splits)
    with j keys(4) show "k \<in> {hd ks}" by (simp add: hd_conv_nth)
  next
    fix k assume "k \<in> {hd ks}"
    then have "k = ks ! 0" using keys(4) by (simp add: hd_conv_nth)
    moreover have "previous (entry_of T ks 0) = None" by (simp add: entry_of_def)
    ultimately show "k \<in> {k. \<exists>e. m k = Some e \<and> previous e = None}"
      using entries [OF pos] by auto
  qed
  have tails: "{k. \<exists>e. m k = Some e \<and> next e = None} = {last ks}"
  proof (intro set_eqI iffI)
    fix k assume "k \<in> {k. \<exists>e. m k = Some e \<and> next e = None}"
    then obtain e where "m k = Some e" "next e = None" by blast
    with entry_at obtain j where j: "j < length ks" "k = ks ! j"
      and "next (entry_of T ks j) = None" by blast
    then have "j = length ks - 1" by (auto simp: entry_of_def split: if_splits)
    with j keys(4) show "k \<in> {last ks}" by (simp add: last_conv_nth)
  next
    fix k assume "k \<in> {last ks}"
    then have k: "k = ks ! (length ks - 1)" using keys(4) by (simp add: last_conv_nth)
    have "next (entry_of T ks (length ks - 1)) = None"
      using pos by (simp add: entry_of_def)
    moreover have "length ks - 1 < length ks" using pos by simp
    ultimately show "k \<in> {k. \<exists>e. m k = Some e \<and> next e = None}"
      using entries [of "length ks - 1"] k by auto
  qed
  have walked: "\<forall>fuel \<ge> length ks. walk fuel m (hd ks) = Some ks"
  proof (intro allI impI)
    fix fuel assume "length ks \<le> fuel"
    then have "walk fuel m (ks ! 0) = Some (drop 0 ks)"
      using pos by (intro walk_keys [of ks m T] entries) simp_all
    then show "walk fuel m (hd ks) = Some ks"
      using keys(4) by (simp add: hd_conv_nth)
  qed
  show ?thesis
    by (intro exI [of _ m] conjI built dom card each heads tails walked)
qed

theorem navigation_chain_witness:
  "\<exists>m. generateNavigationData two_chapters = Inr m
         \<and> dom m = {''a'', ''b''} \<and> walk 2 m ''a'' = Some [''a'', ''b'']"
proof -
  have order: "navigationOrder two_chapters = Inr (map Str [''a'', ''b''])" by code_simp
  have sections: "sections_ok two_chapters" by code_simp
  have keys: "distinct [''a'', ''b'']" "[] \<notin> set [''a'', ''b'']"
    "''__proto__'' \<notin> set [''a'', ''b'']" "[''a'', ''b''] \<noteq> []"
    by simp_all
  from navigation_chain [OF order sections keys] show ?thesis
  proof (elim exE conjE)
    fix m
    assume built: "generateNavigationData two_chapters = Inr m"
      and dom: "dom m = set [''a'', ''b'']"
      and walked: "\<forall>fuel \<ge> length [''a'', ''b''].
                     walk fuel m (hd [''a'', ''b'']) = Some [''a'', ''b'']"
    from dom have dom': "dom m = {''a'', ''b''}" by simp
    from walked
    have "length [''a'', ''b''] \<le> 2 \<longrightarrow> walk 2 m (hd [''a'', ''b'']) = Some [''a'', ''b'']"
      by (rule spec)
    then have walk': "walk 2 m ''a'' = Some [''a'', ''b'']" by simp
    show ?thesis
      by (intro exI [of _ m] conjI built dom' walk')
  qed
qed

section \<open>Properties of render\<close>













text \<open>
  \<^bold>\<open>C4\<close> (the code at the failing input). For the template
  \<^verbatim>\<open>{{#if x}}A{{else}}B{{/if}}\<close> the claim gives \<^verbatim>\<open>B\<close> when \<^verbatim>\<open>x\<close> is falsy and \<^verbatim>\<open>A\<close> when it is
  truthy. The code renders the empty string when \<^verbatim>\<open>x\<close> is \<^verbatim>\<open>false\<close>, and \<^verbatim>\<open>AB\<close> when \<^verbatim>\<open>x\<close> is
  \<^verbatim>\<open>true\<close>: the first pass keeps or drops the whole block with its \<^verbatim>\<open>{{else}}\<close> marker, the
  \<^verbatim>\<open>else\<close> pass finds no closing tag left, and the last pass replaces the marker as a
  variable named \<^verbatim>\<open>else\<close>.
\<close>

theorem else_branch_evaluation:
  "renderTemplate else_template (Obj [(''x'', Bool False)]) = []
   \<and> renderTemplate else_template (Obj [(''x'', Bool True)]) = ''AB''"
proof (intro conjI)
  show "renderTemplate else_template (Obj [(''x'', Bool False)]) = []" by code_simp
  show "renderTemplate else_template (Obj [(''x'', Bool True)]) = ''AB''" by code_simp
qed

theorem else_branch_evaluation_witness:
  "renderTemplate else_template (Obj [(''x'', Bool False)]) \<noteq> ''B''"
  using else_branch_evaluation by simp







section \<open>Properties of renderTemplate\<close>

















































end
